theory Spec2Isabelle
  imports Main "HOL-Library.AList"
begin

section \<open>Strings and numbers as the bot formats them\<close>

text \<open>
  The bot (\<^verbatim>\<open>v2.py\<close>) builds identifiers, paths and shell command lines with
  f-strings. \<open>str\<close> is Python's decimal rendering of an integer, \<open>or_str\<close> is
  \<^verbatim>\<open>a or b\<close> on strings (the first operand unless it is empty), \<open>strip\<close> is
  \<^verbatim>\<open>s.strip()\<close> for ASCII white space, and \<open>path_join\<close> is
  \<^verbatim>\<open>os.path.join\<close> for two components.
\<close>

definition digit_char :: "nat \<Rightarrow> char" where
  "digit_char d = ''0123456789'' ! (d mod 10)"

fun str_nat :: "nat \<Rightarrow> string" where
  "str_nat n = (if n < 10 then [digit_char n] else str_nat (n div 10) @ [digit_char (n mod 10)])"

declare str_nat.simps [simp del]

definition str :: "int \<Rightarrow> string" where
  "str i = (if i < 0 then CHR ''-'' # str_nat (nat (- i)) else str_nat (nat i))"

definition or_str :: "string \<Rightarrow> string \<Rightarrow> string" where
  "or_str a b = (if a \<noteq> [] then a else b)"

definition is_space :: "char \<Rightarrow> bool" where
  "is_space c = (let n = (of_char c :: nat) in (9 \<le> n \<and> n \<le> 13) \<or> (28 \<le> n \<and> n \<le> 32))"

definition strip :: "string \<Rightarrow> string" where
  "strip s = rev (dropWhile is_space (rev (dropWhile is_space s)))"

definition path_join :: "string \<Rightarrow> string \<Rightarrow> string" where
  "path_join a b =
     (if b \<noteq> [] \<and> hd b = CHR ''/'' then b
      else if a = [] \<or> last a = CHR ''/'' then a @ b
      else a @ ''/'' @ b)"

definition sq :: "string" where
  "sq = [CHR 0x27]"

section \<open>Configuration\<close>

text \<open>
  \<^verbatim>\<open>OWNER_ID\<close> is read from the environment when the bot starts; every function
  that uses it takes it as the argument \<open>OWNER_ID\<close>. The other constants are the
  literals of the source.
\<close>

definition ISO_PATH :: "string" where
  "ISO_PATH = ''/root/ubuntu-22.04-desktop-amd64.iso''"

definition WORK_DIR :: "string" where
  "WORK_DIR = ''/root/vps_manager''"

definition SSH_PORT_MIN :: "int" where
  "SSH_PORT_MIN = 22700"

definition SSH_PORT_MAX :: "int" where
  "SSH_PORT_MAX = 22999"

section \<open>The registry\<close>

text \<open>
  One entry of \<^verbatim>\<open>data["vps"]\<close>. The key \<^verbatim>\<open>"id"\<close> is the field \<open>vm_id\<close>.
  \<^verbatim>\<open>local_ssh_port\<close> is read with \<^verbatim>\<open>v.get("local_ssh_port")\<close> and tested for
  truth, so the field is optional: \<open>None\<close> is a record without the key (or with
  \<^verbatim>\<open>null\<close>), and \<open>Some 0\<close> is as false as \<open>None\<close>.
\<close>

record vm =
  vm_id :: string
  user :: string
  name :: string
  ram_mb :: int
  cpu :: int
  disk_gb :: int
  status :: string
  local_ssh_port :: "int option"
  local_ssh :: string
  tmate :: string
  created_at :: string

text \<open>
  \<^verbatim>\<open>data\<close>: the dict \<^verbatim>\<open>"vps"\<close> as an association list in insertion order (its keys
  are distinct, as the keys of a dict are), and the list \<^verbatim>\<open>"admins"\<close>.
\<close>

record registry =
  vps :: "(string \<times> vm) list"
  admins :: "int list"

datatype error = RuntimeError string | KeyError string | TypeError | JSONDecodeError

definition keys :: "registry \<Rightarrow> string set" where
  "keys d = set (map fst (vps d))"

definition vps_values :: "registry \<Rightarrow> vm list" where
  "vps_values d = map snd (vps d)"

definition is_admin :: "registry \<Rightarrow> int \<Rightarrow> bool" where
  "is_admin d uid = (uid \<in> set (admins d))"

section \<open>Allocation\<close>

text \<open>
  \<^verbatim>\<open>random.randint(a, b)\<close> is a draw from the inclusive range; \<open>r\<close> is the raw
  random number behind the draw. The random source is a sequence \<open>rnd\<close> of raw
  numbers, and a position in it.
\<close>

definition randint :: "int \<Rightarrow> int \<Rightarrow> nat \<Rightarrow> int" where
  "randint a b r = a + int (r mod nat (b - a + 1))"

text \<open>
  \<^verbatim>\<open>gen_vps_id\<close>: \<^verbatim>\<open>while True\<close> with a return inside. The loop has no bound, so the
  model is a partial function: \<open>None\<close> is the loop that never returns. The
  result is the id and the position of the next unused draw.
\<close>

partial_function (option) gen_vps_id :: "(nat \<Rightarrow> nat) \<Rightarrow> nat \<Rightarrow> registry \<Rightarrow> (string \<times> nat) option" where
  "gen_vps_id rnd k d =
     (let vid = str (randint 1000 9999 (rnd k))
      in if vid \<notin> keys d then Some (vid, Suc k) else gen_vps_id rnd (Suc k) d)"

declare gen_vps_id.simps [code]


definition used_ports :: "registry \<Rightarrow> int set" where
  "used_ports d =
     set (concat (map (\<lambda>v. case local_ssh_port v of
                              None \<Rightarrow> []
                            | Some p \<Rightarrow> if p \<noteq> 0 then [p] else []) (vps_values d)))"

fun first_free :: "int list \<Rightarrow> int set \<Rightarrow> error + int" where
  "first_free [] used = Inl (RuntimeError ''No free SSH ports available'')"
| "first_free (p # ps) used = (if p \<notin> used then Inr p else first_free ps used)"

definition find_free_ssh_port :: "registry \<Rightarrow> error + int" where
  "find_free_ssh_port d = first_free [SSH_PORT_MIN..SSH_PORT_MAX] (used_ports d)"

section \<open>The host\<close>

text \<open>
  What the bot touches outside its own memory. \<open>files\<close> are the paths that exist,
  \<open>locked\<close> the paths whose removal the operating system refuses (the source
  wraps each \<^verbatim>\<open>os.remove\<close> in \<^verbatim>\<open>try/except Exception: pass\<close>), \<open>procs\<close> the command
  lines of the live processes. Creating a file with \<^verbatim>\<open>open(path, "w")\<close> is taken to
  succeed.
\<close>

record host =
  files :: "string set"
  locked :: "string set"
  procs :: "string set"

text \<open>
  The external tools (\<^verbatim>\<open>qemu-img\<close>, \<^verbatim>\<open>qemu-system-x86_64\<close>, \<^verbatim>\<open>pgrep\<close>, \<^verbatim>\<open>pkill\<close>,
  \<^verbatim>\<open>tmate\<close>) are not part of the bot. A \<open>shell\<close> says, for a command line, a
  timeout and a host, what the command prints and returns and what it leaves of
  the host; \<open>None\<close> is a command that does not finish within the timeout. Every
  function that runs a command takes the shell as its first argument.
\<close>

type_synonym shell = "string \<Rightarrow> nat \<Rightarrow> host \<Rightarrow> (string \<times> string \<times> int) option \<times> host"

text \<open>
  The data file \<^verbatim>\<open>vps_data.json\<close> either was just opened for writing and is empty
  (\<^verbatim>\<open>json.load\<close> fails on it), or holds the document of a registry.
\<close>

datatype file_content = Truncated | Document registry

text \<open>What the bot did to the host, oldest first.\<close>

datatype event = Ran string nat | Removed string | Wrote string

text \<open>
  The whole state: the global \<^verbatim>\<open>data\<close>, the data file (\<open>None\<close> while it does not
  exist), the host, the events so far and the number of random draws used.
\<close>

record state =
  data :: registry
  data_file :: "file_content option"
  os :: host
  events :: "event list"
  draws :: nat

section \<open>Data helpers\<close>

definition load_data :: "int \<Rightarrow> file_content option \<Rightarrow> error + registry" where
  "load_data OWNER_ID f =
     (case f of
        None \<Rightarrow> Inr \<lparr>vps = [], admins = [OWNER_ID]\<rparr>
      | Some Truncated \<Rightarrow> Inl JSONDecodeError
      | Some (Document d) \<Rightarrow> Inr d)"

text \<open>
  \<^verbatim>\<open>save_data\<close> is two steps on the data file itself: \<^verbatim>\<open>open(DATA_FILE, "w")\<close>
  empties it, \<^verbatim>\<open>json.dump(data, f, indent=2)\<close> writes the document. \<open>crash_after n\<close>
  is what is left when the process dies after \<open>n\<close> of the steps.
\<close>

definition open_w :: "state \<Rightarrow> state" where
  "open_w s = s\<lparr>data_file := Some Truncated\<rparr>"

definition json_dump :: "state \<Rightarrow> state" where
  "json_dump s = s\<lparr>data_file := Some (Document (data s))\<rparr>"

definition save_data_steps :: "(state \<Rightarrow> state) list" where
  "save_data_steps = [open_w, json_dump]"

definition run_steps :: "(state \<Rightarrow> state) list \<Rightarrow> state \<Rightarrow> state" where
  "run_steps fs s = fold (\<lambda>f. f) fs s"

definition save_data :: "state \<Rightarrow> state" where
  "save_data s = run_steps save_data_steps s"

definition crash_after :: "nat \<Rightarrow> state \<Rightarrow> state" where
  "crash_after n s = run_steps (take n save_data_steps) s"

text \<open>
  \<^verbatim>\<open>run_shell\<close>: the command runs on the host; a timeout gives
  \<^verbatim>\<open>("", "timeout", -1)\<close>, otherwise the stripped output, the stripped error
  output and the return code.
\<close>

definition run_shell :: "shell \<Rightarrow> string \<Rightarrow> nat \<Rightarrow> state \<Rightarrow> (string \<times> string \<times> int) \<times> state" where
  "run_shell sh cmd timeout s =
     (case sh cmd timeout (os s) of
        (None, h) \<Rightarrow>
          (([], ''timeout'', - 1), s\<lparr>os := h, events := events s @ [Ran cmd timeout]\<rparr>)
      | (Some (out, err, rc), h) \<Rightarrow>
          ((strip out, strip err, rc), s\<lparr>os := h, events := events s @ [Ran cmd timeout]\<rparr>))"

text \<open>
  \<^verbatim>\<open>if os.path.exists(p): os.remove(p)\<close> inside \<^verbatim>\<open>try/except Exception: pass\<close>, and
  \<^verbatim>\<open>with open(p, "w") as f: f.write(...)\<close>.
\<close>

definition remove_if_exists :: "string \<Rightarrow> state \<Rightarrow> state" where
  "remove_if_exists p s =
     (if p \<in> files (os s) then
        (if p \<in> locked (os s) then s
         else s\<lparr>os := (os s)\<lparr>files := files (os s) - {p}\<rparr>, events := events s @ [Removed p]\<rparr>)
      else s)"

definition write_file :: "string \<Rightarrow> state \<Rightarrow> state" where
  "write_file p s = s\<lparr>os := (os s)\<lparr>files := insert p (files (os s))\<rparr>, events := events s @ [Wrote p]\<rparr>"

section \<open>QEMU and tmate helpers\<close>

record paths =
  qcow :: string
  log :: string
  tmate_file :: string
  script :: string

definition vm_paths :: "string \<Rightarrow> paths" where
  "vm_paths vm_name =
     \<lparr>qcow = path_join WORK_DIR (vm_name @ ''.qcow2''),
      log = path_join WORK_DIR (vm_name @ ''_log.txt''),
      tmate_file = path_join WORK_DIR (vm_name @ ''_tmate.txt''),
      script = path_join WORK_DIR (''create_'' @ vm_name @ ''.sh'')\<rparr>"

definition cmd_img :: "string \<Rightarrow> int \<Rightarrow> string" where
  "cmd_img q disk = ''qemu-img create -f qcow2 '' @ q @ '' '' @ str disk @ ''G''"

definition qemu_cmd :: "string \<Rightarrow> int \<Rightarrow> int \<Rightarrow> string \<Rightarrow> int \<Rightarrow> string \<Rightarrow> string" where
  "qemu_cmd vm_name ram cpus q ssh_port lg =
     ''nohup qemu-system-x86_64 -name '' @ vm_name @ '' '' @
     ''-m '' @ str ram @ '' -smp '' @ str cpus @ '' '' @
     ''-drive file='' @ q @ '',format=qcow2,if=virtio '' @
     ''-cdrom '' @ ISO_PATH @ '' -boot d '' @
     ''-netdev user,id=net0,hostfwd=tcp::'' @ str ssh_port @ ''-:22 -device virtio-net-pci,netdev=net0 '' @
     ''-enable-kvm -nographic '' @
     ''> '' @ lg @ '' 2>&1 &''"

definition pgrep_cmd :: "string \<Rightarrow> string" where
  "pgrep_cmd vm_name = ''pgrep -f '' @ sq @ ''qemu-system.*-name '' @ vm_name @ sq @ '' || true''"

definition pkill_cmd :: "string \<Rightarrow> string" where
  "pkill_cmd vm_name = ''pkill -f '' @ sq @ ''qemu-system.*-name '' @ vm_name @ sq @ '' || true''"

text \<open>
  \<^verbatim>\<open>create_vm_process\<close>: \<^verbatim>\<open>qemu-img create\<close>, then the launch; each returns early
  on a return code other than 0. Nothing is removed on either early return.
\<close>

definition create_vm_process :: "shell \<Rightarrow> string \<Rightarrow> int \<Rightarrow> int \<Rightarrow> int \<Rightarrow> int \<Rightarrow> state \<Rightarrow> (bool \<times> string) \<times> state" where
  "create_vm_process sh vm_name ram cpus disk ssh_port s =
     (let p = vm_paths vm_name in
      case run_shell sh (cmd_img (qcow p) disk) 120 s of
        ((out1, err1, rc1), s1) \<Rightarrow>
          if rc1 \<noteq> 0 then ((False, ''qemu-img failed: '' @ or_str err1 out1), s1)
          else
            (case run_shell sh (qemu_cmd vm_name ram cpus (qcow p) ssh_port (log p)) 120 s1 of
               ((out2, err2, rc2), s2) \<Rightarrow>
                 if rc2 \<noteq> 0 then ((False, ''qemu launch failed: '' @ or_str err2 out2), s2)
                 else ((True, ''VM launched, logs: '' @ log p), s2)))"

definition tmate_sock :: "string \<Rightarrow> string" where
  "tmate_sock vm_name = ''/tmp/tmate_'' @ vm_name @ ''.sock''"

definition tmate_display :: "string \<Rightarrow> string \<Rightarrow> string" where
  "tmate_display sock what = ''tmate -S '' @ sock @ '' display -p '' @ sq @ ''#{'' @ what @ ''}'' @ sq"

definition generate_tmate :: "shell \<Rightarrow> string \<Rightarrow> state \<Rightarrow> (bool \<times> string) \<times> state" where
  "generate_tmate sh vm_name s =
     (let p = vm_paths vm_name;
          s1 = remove_if_exists (tmate_file p) s;
          sock = tmate_sock vm_name;
          s2 = remove_if_exists sock s1
      in case run_shell sh (''tmate -S '' @ sock @ '' new-session -d'') 120 s2 of
        ((out1, err1, rc1), s3) \<Rightarrow>
          if rc1 \<noteq> 0 then ((False, ''tmate start failed: '' @ or_str err1 out1), s3)
          else
            (case run_shell sh (tmate_display sock ''tmate_ssh'') 120 s3 of
               ((out2, err2, rc2), s4) \<Rightarrow>
                 if rc2 \<noteq> 0 \<or> out2 = [] then
                   (case run_shell sh (tmate_display sock ''tmate_web'') 120 s4 of
                      ((out3, err3, rc3), s5) \<Rightarrow>
                        if rc3 = 0 \<and> out3 \<noteq> [] then
                          ((True, strip out3), write_file (tmate_file p) s5)
                        else ((False, ''tmate display failed: '' @ or_str err2 out2), s5))
                 else ((True, strip out2), write_file (tmate_file p) s4)))"

section \<open>The commands\<close>

text \<open>
  Each command is a function from the state before to the reply and the state
  after, run without interleaving with another command. An exception that the
  source does not catch ends the command with \<open>Uncaught\<close>.
\<close>

datatype response =
    NoFreePorts
  | CreateFailed string
  | VpsCreated string string
  | VpsNotFound
  | NotAuthorized
  | ManageView string
  | AlreadyRunning string
  | StartFailed string
  | Started string
  | Stopped string
  | SshInfo string string
  | Deleted string
  | ReinstallFailed string
  | Reinstalled string
  | RenewFailed string
  | NewSsh string string
  | OnlyOwnerCanAdd
  | AlreadyAdmin
  | AdminAdded int
  | OnlyOwnerCanRemove
  | CannotRemoveOwner
  | NotAnAdmin
  | AdminRemoved int
  | Uncaught error

definition ssh_line :: "int \<Rightarrow> string" where
  "ssh_line port = ''ssh ubuntu@localhost -p '' @ str port"

definition put_vps :: "string \<Rightarrow> vm \<Rightarrow> state \<Rightarrow> state" where
  "put_vps vps_id v s = s\<lparr>data := (data s)\<lparr>vps := AList.update vps_id v (vps (data s))\<rparr>\<rparr>"

definition del_vps :: "string \<Rightarrow> state \<Rightarrow> state" where
  "del_vps vps_id s = s\<lparr>data := (data s)\<lparr>vps := AList.delete vps_id (vps (data s))\<rparr>\<rparr>"

definition get_vps :: "state \<Rightarrow> string \<Rightarrow> vm option" where
  "get_vps s vps_id = map_of (vps (data s)) vps_id"

text \<open>
  \<^verbatim>\<open>createvps\<close>. \<open>caller\<close> is \<^verbatim>\<open>interaction.user.id\<close>, \<open>now\<close> is
  \<^verbatim>\<open>datetime.utcnow().isoformat()\<close>. The result is \<open>None\<close> when \<^verbatim>\<open>gen_vps_id\<close> does
  not return.
\<close>

definition createvps :: "shell \<Rightarrow> (nat \<Rightarrow> nat) \<Rightarrow> string \<Rightarrow> int \<Rightarrow> string \<Rightarrow> int \<Rightarrow> int \<Rightarrow> int \<Rightarrow> state \<Rightarrow> (response \<times> state) option" where
  "createvps sh rnd now caller base ram cpus disk s =
     (case gen_vps_id rnd (draws s) (data s) of
        None \<Rightarrow> None
      | Some (vps_id, k) \<Rightarrow>
          Some
           (let s0 = s\<lparr>draws := k\<rparr>;
                user_id = str caller;
                vm_name = base @ ''-'' @ vps_id
            in case find_free_ssh_port (data s0) of
                 Inl e \<Rightarrow> (NoFreePorts, s0)
               | Inr local_port \<Rightarrow>
                   (case create_vm_process sh vm_name ram cpus disk local_port s0 of
                      ((success, msg), s1) \<Rightarrow>
                        if \<not> success then (CreateFailed msg, s1)
                        else
                          (case generate_tmate sh vm_name s1 of
                             ((tmate_ok, t), s2) \<Rightarrow>
                               let tmate_str =
                                     (if tmate_ok then t else ''Failed to generate tmate link: '' @ t);
                                   s3 = put_vps vps_id
                                          \<lparr>vm_id = vps_id, user = user_id, name = vm_name,
                                           ram_mb = ram, cpu = cpus, disk_gb = disk,
                                           status = ''Running'',
                                           local_ssh_port = Some local_port,
                                           local_ssh = ssh_line local_port,
                                           tmate = tmate_str, created_at = now\<rparr> s2
                               in (VpsCreated vps_id vm_name, save_data s3)))))"

text \<open>
  \<^verbatim>\<open>manage\<close> checks the caller and hands out the view with the four buttons. The
  callbacks close over the record object \<open>v\<close> that \<^verbatim>\<open>manage\<close> read, and check
  nothing: they take that object and return it as they leave it. The argument
  \<open>k\<close> says where the object lives: \<open>Some vps_id\<close> while it still is the
  registry's entry under \<open>vps_id\<close>, so that an assignment to one of its fields
  shows in \<^verbatim>\<open>data\<close>; \<open>None\<close> once the entry has been deleted, when the assignment
  changes the object only.
\<close>

definition manage :: "int \<Rightarrow> string \<Rightarrow> state \<Rightarrow> response \<times> state" where
  "manage caller vps_id s =
     (case get_vps s vps_id of
        None \<Rightarrow> (VpsNotFound, s)
      | Some v \<Rightarrow>
          if user v \<noteq> str caller \<and> \<not> is_admin (data s) caller then (NotAuthorized, s)
          else (ManageView vps_id, s))"

definition store_back :: "string option \<Rightarrow> vm \<Rightarrow> state \<Rightarrow> state" where
  "store_back k v s = (case k of None \<Rightarrow> s | Some vps_id \<Rightarrow> put_vps vps_id v s)"

text \<open>
  \<^verbatim>\<open>start_cb\<close> passes \<^verbatim>\<open>int(v["local_ssh_port"])\<close>; on a record without a port that
  raises (a \<^verbatim>\<open>KeyError\<close> without the key, a \<^verbatim>\<open>TypeError\<close> on \<^verbatim>\<open>null\<close>) before
  \<^verbatim>\<open>create_vm_process\<close> is entered.
\<close>

definition start_cb :: "shell \<Rightarrow> string option \<Rightarrow> vm \<Rightarrow> state \<Rightarrow> response \<times> vm \<times> state" where
  "start_cb sh k v s =
     (let vm_name = name v in
      case run_shell sh (pgrep_cmd vm_name) 120 s of
        ((out, err, rc), s1) \<Rightarrow>
          if out \<noteq> [] then
            (let v1 = v\<lparr>status := ''Running''\<rparr>
             in (AlreadyRunning vm_name, v1, save_data (store_back k v1 s1)))
          else
            (case local_ssh_port v of
               None \<Rightarrow> (Uncaught TypeError, v, s1)
             | Some port \<Rightarrow>
                 (case create_vm_process sh vm_name (ram_mb v) (cpu v) (disk_gb v) port s1 of
                    ((success, msg), s2) \<Rightarrow>
                      if \<not> success then (StartFailed msg, v, s2)
                      else
                        (let v1 = v\<lparr>status := ''Running''\<rparr>
                         in (Started vm_name, v1, save_data (store_back k v1 s2))))))"

definition stop_cb :: "shell \<Rightarrow> string option \<Rightarrow> vm \<Rightarrow> state \<Rightarrow> response \<times> vm \<times> state" where
  "stop_cb sh k v s =
     (let vm_name = name v in
      case run_shell sh (pkill_cmd vm_name) 120 s of
        ((out, err, rc), s1) \<Rightarrow>
          (let v1 = v\<lparr>status := ''Stopped''\<rparr>
           in (Stopped vm_name, v1, save_data (store_back k v1 s1))))"

text \<open>
  \<^verbatim>\<open>restart_cb\<close> awaits \<^verbatim>\<open>stop_cb\<close> and then \<^verbatim>\<open>start_cb\<close> on the same interaction;
  the result lists the replies the two hand to \<^verbatim>\<open>send_message\<close>, in order.
\<close>

definition restart_cb :: "shell \<Rightarrow> string option \<Rightarrow> vm \<Rightarrow> state \<Rightarrow> response list \<times> vm \<times> state" where
  "restart_cb sh k v s =
     (case stop_cb sh k v s of
        (r1, v1, s1) \<Rightarrow>
          (case start_cb sh k v1 s1 of
             (r2, v2, s2) \<Rightarrow> ([r1, r2], v2, s2)))"

definition ssh_cb :: "vm \<Rightarrow> state \<Rightarrow> response \<times> vm \<times> state" where
  "ssh_cb v s = (SshInfo (local_ssh v) (tmate v), v, s)"

definition deletevps :: "shell \<Rightarrow> int \<Rightarrow> string \<Rightarrow> state \<Rightarrow> response \<times> state" where
  "deletevps sh caller vps_id s =
     (case get_vps s vps_id of
        None \<Rightarrow> (VpsNotFound, s)
      | Some v \<Rightarrow>
          if user v \<noteq> str caller \<and> \<not> is_admin (data s) caller then (NotAuthorized, s)
          else
            (let vm_name = name v in
             case run_shell sh (pkill_cmd vm_name) 10 s of
               (r, s1) \<Rightarrow>
                 (let p = vm_paths vm_name;
                      s2 = fold remove_if_exists [qcow p, log p, tmate_file p, script p] s1;
                      s3 = remove_if_exists (tmate_sock vm_name) s2;
                      s4 = del_vps vps_id s3
                  in (Deleted vm_name, save_data s4))))"

text \<open>
  \<^verbatim>\<open>reinstallvps\<close>. \<^verbatim>\<open>v.get("local_ssh_port") or find_free_ssh_port()\<close> keeps a
  stored port that is true and allocates one otherwise; the \<^verbatim>\<open>RuntimeError\<close> of the
  allocation is not caught here.
\<close>

definition port_or_free :: "vm \<Rightarrow> registry \<Rightarrow> error + int" where
  "port_or_free v d =
     (case local_ssh_port v of
        None \<Rightarrow> find_free_ssh_port d
      | Some p \<Rightarrow> if p \<noteq> 0 then Inr p else find_free_ssh_port d)"

definition reinstallvps :: "shell \<Rightarrow> int \<Rightarrow> string \<Rightarrow> state \<Rightarrow> response \<times> state" where
  "reinstallvps sh caller vps_id s =
     (case get_vps s vps_id of
        None \<Rightarrow> (VpsNotFound, s)
      | Some v \<Rightarrow>
          if user v \<noteq> str caller \<and> \<not> is_admin (data s) caller then (NotAuthorized, s)
          else
            (let vm_name = name v in
             case run_shell sh (pkill_cmd vm_name) 10 s of
               (r, s1) \<Rightarrow>
                 (let p = vm_paths vm_name;
                      s2 = remove_if_exists (qcow p) s1
                  in case port_or_free v (data s2) of
                       Inl e \<Rightarrow> (Uncaught e, s2)
                     | Inr local_port \<Rightarrow>
                         (case create_vm_process sh vm_name (ram_mb v) (cpu v) (disk_gb v) local_port s2 of
                            ((success, msg), s3) \<Rightarrow>
                              if \<not> success then (ReinstallFailed msg, s3)
                              else
                                (let v1 = v\<lparr>local_ssh_port := Some local_port,
                                            local_ssh := ssh_line local_port,
                                            status := ''Running''\<rparr>
                                 in (Reinstalled vm_name, save_data (put_vps vps_id v1 s3)))))))"

definition renewssh :: "shell \<Rightarrow> int \<Rightarrow> string \<Rightarrow> state \<Rightarrow> response \<times> state" where
  "renewssh sh caller vps_id s =
     (case get_vps s vps_id of
        None \<Rightarrow> (VpsNotFound, s)
      | Some v \<Rightarrow>
          if user v \<noteq> str caller \<and> \<not> is_admin (data s) caller then (NotAuthorized, s)
          else
            (let vm_name = name v in
             case find_free_ssh_port (data s) of
               Inl e \<Rightarrow> (NoFreePorts, s)
             | Inr new_port \<Rightarrow>
                 (case run_shell sh (pkill_cmd vm_name) 10 s of
                    (r, s1) \<Rightarrow>
                      (case create_vm_process sh vm_name (ram_mb v) (cpu v) (disk_gb v) new_port s1 of
                         ((success, msg), s2) \<Rightarrow>
                           if \<not> success then (RenewFailed msg, s2)
                           else
                             (let v1 = v\<lparr>local_ssh_port := Some new_port,
                                         local_ssh := ssh_line new_port\<rparr>
                              in case generate_tmate sh vm_name s2 of
                                   ((t_ok, t), s3) \<Rightarrow>
                                     (let t_str = (if t_ok then t else ''Failed to generate tmate: '' @ t);
                                          v2 = v1\<lparr>tmate := t_str, status := ''Running''\<rparr>
                                      in (NewSsh (local_ssh v2) (tmate v2),
                                          save_data (put_vps vps_id v2 s3))))))))"

text \<open>
  \<^verbatim>\<open>addadmin\<close> and \<^verbatim>\<open>removeadmin\<close>; \<open>uid\<close> is \<^verbatim>\<open>user.id\<close>. \<^verbatim>\<open>list.remove\<close> takes out
  the first occurrence.
\<close>

definition addadmin :: "int \<Rightarrow> int \<Rightarrow> int \<Rightarrow> state \<Rightarrow> response \<times> state" where
  "addadmin OWNER_ID caller uid s =
     (if caller \<noteq> OWNER_ID then (OnlyOwnerCanAdd, s)
      else if uid \<in> set (admins (data s)) then (AlreadyAdmin, s)
      else (AdminAdded uid, save_data (s\<lparr>data := (data s)\<lparr>admins := admins (data s) @ [uid]\<rparr>\<rparr>)))"

definition removeadmin :: "int \<Rightarrow> int \<Rightarrow> int \<Rightarrow> state \<Rightarrow> response \<times> state" where
  "removeadmin OWNER_ID caller uid s =
     (if caller \<noteq> OWNER_ID then (OnlyOwnerCanRemove, s)
      else if uid = OWNER_ID then (CannotRemoveOwner, s)
      else if uid \<notin> set (admins (data s)) then (NotAnAdmin, s)
      else (AdminRemoved uid, save_data (s\<lparr>data := (data s)\<lparr>admins := remove1 uid (admins (data s))\<rparr>\<rparr>)))"

section \<open>Runs of the bot\<close>

text \<open>
  Starting the process executes \<^verbatim>\<open>data = load_data()\<close>; it fails when the data
  file does not parse.
\<close>

definition boot :: "int \<Rightarrow> state \<Rightarrow> error + state" where
  "boot OWNER_ID s =
     (case load_data OWNER_ID (data_file s) of
        Inl e \<Rightarrow> Inl e
      | Inr d \<Rightarrow> Inr (s\<lparr>data := d\<rparr>))"

text \<open>
  The states the bot can be in: it first starts without a data file, and from then
  on any command runs, with any caller, any arguments, any behaviour of the
  tools and any random draws; the host may change under it, and the process may
  be started again from the data file. The listing commands (\<^verbatim>\<open>listvps\<close>,
  \<^verbatim>\<open>listall\<close>, \<^verbatim>\<open>ping\<close>, \<^verbatim>\<open>botinfo\<close>) and the SSH-info button change nothing and
  are left out. A button of a view acts on the registry's entry, or on a record
  that has been deleted since.
\<close>

inductive reachable :: "int \<Rightarrow> state \<Rightarrow> bool" for OWNER_ID :: int where
  first_boot: "data_file s = None \<Longrightarrow> boot OWNER_ID s = Inr s' \<Longrightarrow> reachable OWNER_ID s'"
| reboot: "reachable OWNER_ID s \<Longrightarrow> boot OWNER_ID s = Inr s' \<Longrightarrow> reachable OWNER_ID s'"
| host_change: "reachable OWNER_ID s \<Longrightarrow> reachable OWNER_ID (s\<lparr>os := h\<rparr>)"
| create: "reachable OWNER_ID s \<Longrightarrow> createvps sh rnd now caller base ram cpus disk s = Some (r, s')
     \<Longrightarrow> reachable OWNER_ID s'"
| manage: "reachable OWNER_ID s \<Longrightarrow> manage caller vps_id s = (r, s') \<Longrightarrow> reachable OWNER_ID s'"
| start: "reachable OWNER_ID s \<Longrightarrow> k = None \<or> (\<exists>vps_id. k = Some vps_id \<and> get_vps s vps_id = Some v)
     \<Longrightarrow> start_cb sh k v s = (r, v', s') \<Longrightarrow> reachable OWNER_ID s'"
| stop: "reachable OWNER_ID s \<Longrightarrow> k = None \<or> (\<exists>vps_id. k = Some vps_id \<and> get_vps s vps_id = Some v)
     \<Longrightarrow> stop_cb sh k v s = (r, v', s') \<Longrightarrow> reachable OWNER_ID s'"
| restart: "reachable OWNER_ID s \<Longrightarrow> k = None \<or> (\<exists>vps_id. k = Some vps_id \<and> get_vps s vps_id = Some v)
     \<Longrightarrow> restart_cb sh k v s = (rs, v', s') \<Longrightarrow> reachable OWNER_ID s'"
| delete: "reachable OWNER_ID s \<Longrightarrow> deletevps sh caller vps_id s = (r, s') \<Longrightarrow> reachable OWNER_ID s'"
| reinstall: "reachable OWNER_ID s \<Longrightarrow> reinstallvps sh caller vps_id s = (r, s') \<Longrightarrow> reachable OWNER_ID s'"
| renew: "reachable OWNER_ID s \<Longrightarrow> renewssh sh caller vps_id s = (r, s') \<Longrightarrow> reachable OWNER_ID s'"
| add_admin: "reachable OWNER_ID s \<Longrightarrow> addadmin OWNER_ID caller uid s = (r, s') \<Longrightarrow> reachable OWNER_ID s'"
| remove_admin: "reachable OWNER_ID s \<Longrightarrow> removeadmin OWNER_ID caller uid s = (r, s') \<Longrightarrow> reachable OWNER_ID s'"

section \<open>Example states and hosts\<close>

text \<open>
  A registry with one stopped machine of user 42, created by \<^verbatim>\<open>createvps\<close> with
  the name \<open>web\<close>, and the bot's owner 1 as the only admin; a host that holds the
  machine's disk image; tools that print nothing and return 0.
\<close>

definition vm_web :: "vm" where
  "vm_web =
     \<lparr>vm_id = ''1000'', user = ''42'', name = ''web-1000'',
      ram_mb = 2048, cpu = 2, disk_gb = 20, status = ''Stopped'',
      local_ssh_port = Some 22700, local_ssh = ''ssh ubuntu@localhost -p 22700'',
      tmate = ''ssh web@tmate.io'', created_at = ''2024-01-01T00:00:00''\<rparr>"

definition reg_web :: "registry" where
  "reg_web = \<lparr>vps = [(''1000'', vm_web)], admins = [1]\<rparr>"

definition reg_empty :: "registry" where
  "reg_empty = \<lparr>vps = [], admins = [1]\<rparr>"

definition host_web :: "host" where
  "host_web = \<lparr>files = {''/root/vps_manager/web-1000.qcow2''}, locked = {}, procs = {}\<rparr>"

definition host_empty :: "host" where
  "host_empty = \<lparr>files = {}, locked = {}, procs = {}\<rparr>"

definition st_web :: "state" where
  "st_web = \<lparr>data = reg_web, data_file = Some (Document reg_web), os = host_web, events = [], draws = 0\<rparr>"

definition st_empty :: "state" where
  "st_empty = \<lparr>data = reg_empty, data_file = None, os = host_empty, events = [], draws = 0\<rparr>"

definition quiet_shell :: "shell" where
  "quiet_shell c t h = (Some ([], [], 0), h)"

definition rnd_zero :: "nat \<Rightarrow> nat" where
  "rnd_zero j = 0"

text \<open>
  A registry in which every id from 1000 to 9999 is taken, as a data file can hold
  it; the records have no port.
\<close>

definition vm_numbered :: "int \<Rightarrow> vm" where
  "vm_numbered n =
     \<lparr>vm_id = str n, user = ''42'', name = ''web-'' @ str n,
      ram_mb = 2048, cpu = 2, disk_gb = 20, status = ''Stopped'',
      local_ssh_port = None, local_ssh = [],
      tmate = [], created_at = ''2024-01-01T00:00:00''\<rparr>"

definition reg_full :: "registry" where
  "reg_full = \<lparr>vps = map (\<lambda>n. (str n, vm_numbered n)) [1000..9999], admins = [1]\<rparr>"

text \<open>
  Tools of which \<^verbatim>\<open>qemu-img\<close> works and writes the image it is asked for, and every
  other command fails with return code 1.
\<close>

definition launch_fails_shell :: "shell" where
  "launch_fails_shell c t h =
     (if take 9 c = ''qemu-img '' then
        (Some ([], [], 0), h\<lparr>files := insert (takeWhile (\<lambda>x. x \<noteq> CHR '' '') (drop 25 c)) (files h)\<rparr>)
      else (Some ([], ''Could not access KVM kernel module'', 1), h))"

text \<open>
  The state after the owner 1 has made user 5 an admin in \<open>st_web\<close>.
\<close>

definition st_two_admins :: "state" where
  "st_two_admins =
     \<lparr>data = \<lparr>vps = [(''1000'', vm_web)], admins = [1, 5]\<rparr>,
      data_file = Some (Document \<lparr>vps = [(''1000'', vm_web)], admins = [1, 5]\<rparr>),
      os = host_web, events = [], draws = 0\<rparr>"

section \<open>Properties of runs\<close>

text \<open>
  \<open>keeps_admins s s'\<close>: from \<open>s\<close> to \<open>s'\<close> the admin list did not change, and the
  data file is the one of \<open>s\<close> or holds a registry with that admin list.
  \<open>admins_inv P s\<close>: \<open>P\<close> holds of the admin list in memory and of the one in the
  data file.
\<close>

definition keeps_admins :: "state \<Rightarrow> state \<Rightarrow> bool" where
  "keeps_admins s s' =
     (admins (data s') = admins (data s) \<and>
      (data_file s' = data_file s \<or>
       (case data_file s' of
          None \<Rightarrow> False
        | Some Truncated \<Rightarrow> False
        | Some (Document d) \<Rightarrow> admins d = admins (data s))))"

definition admins_inv :: "(int list \<Rightarrow> bool) \<Rightarrow> state \<Rightarrow> bool" where
  "admins_inv P s =
     (P (admins (data s)) \<and>
      (case data_file s of
         None \<Rightarrow> True
       | Some Truncated \<Rightarrow> True
       | Some (Document d) \<Rightarrow> P (admins d)))"

section \<open>The helpers leave the registry and the data file alone\<close>

lemma run_shell_frame:
  "run_shell sh c t s = (r, s') \<Longrightarrow>
     data s' = data s \<and> data_file s' = data_file s \<and> draws s' = draws s \<and>
     events s' = events s @ [Ran c t]"
  by (auto simp: run_shell_def split: prod.splits option.splits)

lemma remove_if_exists_frame:
  "data (remove_if_exists p s) = data s \<and> data_file (remove_if_exists p s) = data_file s \<and>
   draws (remove_if_exists p s) = draws s"
  by (simp add: remove_if_exists_def)

lemma write_file_frame:
  "data (write_file p s) = data s \<and> data_file (write_file p s) = data_file s \<and>
   draws (write_file p s) = draws s"
  by (simp add: write_file_def)

lemma create_vm_process_frame:
  "create_vm_process sh n ram c d p s = (r, s') \<Longrightarrow>
     data s' = data s \<and> data_file s' = data_file s \<and> draws s' = draws s"
  by (auto simp: create_vm_process_def Let_def split: prod.splits if_splits dest!: run_shell_frame)

lemma create_vm_process_events:
  "create_vm_process sh n ram c d p s = ((ok, msg), s') \<Longrightarrow>
     (\<not> ok \<and> events s' = events s @ [Ran (cmd_img (qcow (vm_paths n)) d) 120]) \<or>
     events s' = events s @ [Ran (cmd_img (qcow (vm_paths n)) d) 120,
                             Ran (qemu_cmd n ram c (qcow (vm_paths n)) p (log (vm_paths n))) 120]"
  by (auto simp: create_vm_process_def Let_def split: prod.splits if_splits dest!: run_shell_frame)

lemma generate_tmate_frame:
  "generate_tmate sh n s = (r, s') \<Longrightarrow>
     data s' = data s \<and> data_file s' = data_file s \<and> draws s' = draws s"
  by (auto simp: generate_tmate_def Let_def remove_if_exists_frame write_file_frame
      split: prod.splits if_splits dest!: run_shell_frame)

lemma save_data_eq: "save_data s = s\<lparr>data_file := Some (Document (data s))\<rparr>"
  by (simp add: save_data_def run_steps_def save_data_steps_def open_w_def json_dump_def)

section \<open>Port allocation\<close>

lemma first_free_upto_Inr:
  "first_free [a..b] used = Inr p \<longleftrightarrow> a \<le> p \<and> p \<le> b \<and> p \<notin> used \<and> (\<forall>q. a \<le> q \<and> q < p \<longrightarrow> q \<in> used)"
proof (induction a b rule: upto.induct)
  case (1 i j)
  show ?case
  proof (cases "i \<le> j")
    case False
    then show ?thesis by auto
  next
    case True
    then have u: "[i..j] = i # [i + 1..j]" by (simp add: upto_rec1)
    show ?thesis
    proof (cases "i \<in> used")
      case False
      then show ?thesis using True u by (auto simp: not_less)
    next
      case inused: True
      have step: "\<And>q. i \<le> q \<Longrightarrow> q = i \<or> i + 1 \<le> q" by arith
      have "first_free [i..j] used = first_free [i + 1..j] used" using inused u by simp
      also have "\<dots> = Inr p \<longleftrightarrow> i + 1 \<le> p \<and> p \<le> j \<and> p \<notin> used \<and> (\<forall>q. i + 1 \<le> q \<and> q < p \<longrightarrow> q \<in> used)"
        using 1 \<open>i \<le> j\<close> by simp
      also have "\<dots> \<longleftrightarrow> i \<le> p \<and> p \<le> j \<and> p \<notin> used \<and> (\<forall>q. i \<le> q \<and> q < p \<longrightarrow> q \<in> used)"
      proof -
        have "(\<forall>q. i + 1 \<le> q \<and> q < p \<longrightarrow> q \<in> used) \<longleftrightarrow> (\<forall>q. i \<le> q \<and> q < p \<longrightarrow> q \<in> used)"
        proof (intro iffI allI impI)
          fix q assume h: "\<forall>q. i + 1 \<le> q \<and> q < p \<longrightarrow> q \<in> used" and q: "i \<le> q \<and> q < p"
          from q step have "q = i \<or> i + 1 \<le> q" by blast
          then show "q \<in> used" using h q inused by blast
        next
          fix q assume h: "\<forall>q. i \<le> q \<and> q < p \<longrightarrow> q \<in> used" and q: "i + 1 \<le> q \<and> q < p"
          from q have "i \<le> q \<and> q < p" by arith
          then show "q \<in> used" using h by blast
        qed
        moreover have "p \<notin> used \<Longrightarrow> i + 1 \<le> p \<longleftrightarrow> i \<le> p"
          using inused step [of p] by auto
        ultimately show ?thesis by auto
      qed
      finally show ?thesis .
    qed
  qed
qed

lemma first_free_Inl:
  "first_free ps used = Inl e \<longleftrightarrow>
     e = RuntimeError ''No free SSH ports available'' \<and> set ps \<subseteq> used"
  by (induction ps) auto

lemma first_free_upto_Inl:
  "first_free [a..b] used = Inl e \<longleftrightarrow>
     e = RuntimeError ''No free SSH ports available'' \<and> (\<forall>q. a \<le> q \<and> q \<le> b \<longrightarrow> q \<in> used)"
  unfolding first_free_Inl by auto

lemma used_ports_iff:
  "p \<in> used_ports d \<longleftrightarrow> p \<noteq> 0 \<and> (\<exists>v \<in> set (vps_values d). local_ssh_port v = Some p)"
proof
  assume "p \<in> used_ports d"
  then obtain v where v: "v \<in> set (vps_values d)"
    and pv: "p \<in> set (case local_ssh_port v of None \<Rightarrow> [] | Some p \<Rightarrow> if p \<noteq> 0 then [p] else [])"
    by (auto simp: used_ports_def)
  from pv have "p \<noteq> 0 \<and> local_ssh_port v = Some p"
    by (cases "local_ssh_port v") (auto split: if_splits)
  with v show "p \<noteq> 0 \<and> (\<exists>v \<in> set (vps_values d). local_ssh_port v = Some p)" by blast
next
  assume "p \<noteq> 0 \<and> (\<exists>v \<in> set (vps_values d). local_ssh_port v = Some p)"
  then obtain v where "p \<noteq> 0" "v \<in> set (vps_values d)" "local_ssh_port v = Some p" by blast
  then show "p \<in> used_ports d"
    unfolding used_ports_def by (simp only: set_concat set_map) force
qed

text \<open>
  Claim C2. For every registry, \<^verbatim>\<open>find_free_ssh_port\<close> returns a port \<open>p\<close> exactly
  when \<open>p\<close> is the smallest port of the inclusive range from 22700 to 22999
  that is not the \<open>local_ssh_port\<close> of any record of the registry, and it fails
  exactly when every port of the range is the port of some record; the failure is
  the \<^verbatim>\<open>RuntimeError\<close> "No free SSH ports available". The function only reads
  the registry: it returns a value and no state, so no record is changed.
\<close>

theorem find_free_ssh_port_lowest:
  "(find_free_ssh_port d = Inr p \<longleftrightarrow>
      22700 \<le> p \<and> p \<le> 22999 \<and>
      (\<forall>v \<in> set (vps_values d). local_ssh_port v \<noteq> Some p) \<and>
      (\<forall>q. 22700 \<le> q \<and> q < p \<longrightarrow> (\<exists>v \<in> set (vps_values d). local_ssh_port v = Some q))) \<and>
   (find_free_ssh_port d = Inl e \<longleftrightarrow>
      e = RuntimeError ''No free SSH ports available'' \<and>
      (\<forall>q. 22700 \<le> q \<and> q \<le> 22999 \<longrightarrow> (\<exists>v \<in> set (vps_values d). local_ssh_port v = Some q)))"
proof -
  define U where "U = used_ports d"
  define H where "H = (\<lambda>q. \<exists>v \<in> set (vps_values d). local_ssh_port v = Some q)"
  have nz: "(q \<in> U) = H q" if "22700 \<le> q" for q
  proof -
    from that have "q \<noteq> 0" by arith
    then show ?thesis unfolding U_def H_def by (simp add: used_ports_iff)
  qed
  have a: "find_free_ssh_port d = Inr p \<longleftrightarrow>
      22700 \<le> p \<and> p \<le> 22999 \<and> p \<notin> U \<and> (\<forall>q. 22700 \<le> q \<and> q < p \<longrightarrow> q \<in> U)"
    unfolding find_free_ssh_port_def SSH_PORT_MIN_def SSH_PORT_MAX_def U_def by (rule first_free_upto_Inr)
  have b: "find_free_ssh_port d = Inl e \<longleftrightarrow>
      e = RuntimeError ''No free SSH ports available'' \<and> (\<forall>q. 22700 \<le> q \<and> q \<le> 22999 \<longrightarrow> q \<in> U)"
    unfolding find_free_ssh_port_def SSH_PORT_MIN_def SSH_PORT_MAX_def U_def by (rule first_free_upto_Inl)
  have a': "find_free_ssh_port d = Inr p \<longleftrightarrow>
      22700 \<le> p \<and> p \<le> 22999 \<and> \<not> H p \<and> (\<forall>q. 22700 \<le> q \<and> q < p \<longrightarrow> H q)"
    unfolding a using nz by blast
  have b': "find_free_ssh_port d = Inl e \<longleftrightarrow>
      e = RuntimeError ''No free SSH ports available'' \<and> (\<forall>q. 22700 \<le> q \<and> q \<le> 22999 \<longrightarrow> H q)"
    unfolding b using nz by blast
  have h: "\<not> H p \<longleftrightarrow> (\<forall>v \<in> set (vps_values d). local_ssh_port v \<noteq> Some p)"
    unfolding H_def by blast
  show ?thesis
    using a' b' unfolding h unfolding H_def by (rule conjI)
qed


text \<open>
  With the one machine of \<open>reg_web\<close> on port 22700, the port returned is 22701.
\<close>

theorem find_free_ssh_port_lowest_witness:
  "vps_values reg_web = [vm_web] \<and> local_ssh_port vm_web = Some 22700 \<and>
   find_free_ssh_port reg_web = Inr 22701"
proof -
  have v: "vps_values reg_web = [vm_web]" by (simp add: vps_values_def reg_web_def)
  have p: "local_ssh_port vm_web = Some 22700" by (simp add: vm_web_def)
  have free: "\<forall>v \<in> set (vps_values reg_web). local_ssh_port v \<noteq> Some 22701"
    by (simp add: v p)
  have below: "\<forall>q. 22700 \<le> q \<and> q < 22701 \<longrightarrow> (\<exists>v \<in> set (vps_values reg_web). local_ssh_port v = Some q)"
  proof (intro allI impI)
    fix q :: int assume "22700 \<le> q \<and> q < 22701"
    then have "q = 22700" by arith
    then show "\<exists>v \<in> set (vps_values reg_web). local_ssh_port v = Some q" by (simp add: v p)
  qed
  have "find_free_ssh_port reg_web = Inr 22701"
    using find_free_ssh_port_lowest [of reg_web 22701, THEN conjunct1] free below by simp
  with v p show ?thesis by simp
qed

section \<open>Id allocation\<close>

lemma gen_vps_id_first:
  "k \<le> j \<Longrightarrow> \<forall>i. k \<le> i \<and> i < j \<longrightarrow> str (randint 1000 9999 (rnd i)) \<in> keys d \<Longrightarrow>
   str (randint 1000 9999 (rnd j)) \<notin> keys d \<Longrightarrow>
   gen_vps_id rnd k d = Some (str (randint 1000 9999 (rnd j)), Suc j)"
proof (induction "j - k" arbitrary: k)
  case 0
  then have "k = j" by simp
  with 0(4) show ?case by (subst gen_vps_id.simps) (simp add: Let_def)
next
  case (Suc n)
  from Suc(2) have lt: "k < j" by arith
  with Suc(4) have taken: "str (randint 1000 9999 (rnd k)) \<in> keys d" by simp
  have "n = j - Suc k" using Suc(2) by arith
  moreover have "Suc k \<le> j" using lt by arith
  moreover have "\<forall>i. Suc k \<le> i \<and> i < j \<longrightarrow> str (randint 1000 9999 (rnd i)) \<in> keys d"
    using Suc(4) by simp
  ultimately have "gen_vps_id rnd (Suc k) d = Some (str (randint 1000 9999 (rnd j)), Suc j)"
    using Suc(1) [of "Suc k"] Suc(5) by blast
  with taken show ?case by (subst gen_vps_id.simps) (simp add: Let_def)
qed

lemma gen_vps_id_Some_ex:
  assumes "gen_vps_id rnd k d = Some y"
  shows "\<exists>j\<ge>k. str (randint 1000 9999 (rnd j)) \<notin> keys d"
proof (rule gen_vps_id.raw_induct
         [where P = "\<lambda>rnd k d y. \<exists>j\<ge>k. str (randint 1000 9999 (rnd j)) \<notin> keys d", OF _ assms])
  fix gen :: "(nat \<Rightarrow> nat) \<Rightarrow> nat \<Rightarrow> registry \<Rightarrow> (string \<times> nat) option"
  fix rnd k d y
  assume ih: "\<And>rnd k d y. gen rnd k d = Some y \<Longrightarrow> \<exists>j\<ge>k. str (randint 1000 9999 (rnd j)) \<notin> keys d"
  assume eq: "(let vid = str (randint 1000 9999 (rnd k))
               in if vid \<notin> keys d then Some (vid, Suc k) else gen rnd (Suc k) d) = Some y"
  show "\<exists>j\<ge>k. str (randint 1000 9999 (rnd j)) \<notin> keys d"
  proof (cases "str (randint 1000 9999 (rnd k)) \<notin> keys d")
    case True
    then show ?thesis by blast
  next
    case False
    with eq have "gen rnd (Suc k) d = Some y" by (simp add: Let_def)
    then have "\<exists>j\<ge>Suc k. str (randint 1000 9999 (rnd j)) \<notin> keys d" by (rule ih)
    then obtain j where "Suc k \<le> j" "str (randint 1000 9999 (rnd j)) \<notin> keys d" by blast
    then have "k \<le> j \<and> str (randint 1000 9999 (rnd j)) \<notin> keys d" by simp
    then show ?thesis by blast
  qed
qed


lemma gen_vps_id_Some:
  assumes "gen_vps_id rnd k d = Some y"
  shows "\<exists>j\<ge>k. (\<forall>i. k \<le> i \<and> i < j \<longrightarrow> str (randint 1000 9999 (rnd i)) \<in> keys d) \<and>
           str (randint 1000 9999 (rnd j)) \<notin> keys d \<and>
           y = (str (randint 1000 9999 (rnd j)), Suc j)"
proof -
  define Q where "Q = (\<lambda>j. k \<le> j \<and> str (randint 1000 9999 (rnd j)) \<notin> keys d)"
  from gen_vps_id_Some_ex [OF assms] have "\<exists>j. Q j" unfolding Q_def by blast
  then obtain j where j: "Q j" and least: "\<forall>i<j. \<not> Q i"
    using exists_least_iff [of Q] by blast
  from j have kj: "k \<le> j" and free: "str (randint 1000 9999 (rnd j)) \<notin> keys d"
    unfolding Q_def by blast+
  from least have taken: "\<forall>i. k \<le> i \<and> i < j \<longrightarrow> str (randint 1000 9999 (rnd i)) \<in> keys d"
    unfolding Q_def by blast
  from gen_vps_id_first [OF kj taken free] assms
  have "y = (str (randint 1000 9999 (rnd j)), Suc j)" by simp
  with kj taken free show ?thesis by blast
qed

lemma gen_vps_id_None_iff:
  "gen_vps_id rnd k d = None \<longleftrightarrow> (\<forall>j\<ge>k. str (randint 1000 9999 (rnd j)) \<in> keys d)"
proof
  assume n: "gen_vps_id rnd k d = None"
  show "\<forall>j\<ge>k. str (randint 1000 9999 (rnd j)) \<in> keys d"
  proof (rule ccontr)
    assume "\<not> (\<forall>j\<ge>k. str (randint 1000 9999 (rnd j)) \<in> keys d)"
    then have "\<exists>j. k \<le> j \<and> str (randint 1000 9999 (rnd j)) \<notin> keys d" by blast
    then obtain j where j: "k \<le> j \<and> str (randint 1000 9999 (rnd j)) \<notin> keys d"
      and least: "\<forall>i<j. \<not> (k \<le> i \<and> str (randint 1000 9999 (rnd i)) \<notin> keys d)"
      using exists_least_iff [of "\<lambda>j. k \<le> j \<and> str (randint 1000 9999 (rnd j)) \<notin> keys d"] by blast
    from least have taken: "\<forall>i. k \<le> i \<and> i < j \<longrightarrow> str (randint 1000 9999 (rnd i)) \<in> keys d"
      by blast
    from gen_vps_id_first [of k j rnd d] j taken n show False by simp
  qed
next
  assume a: "\<forall>j\<ge>k. str (randint 1000 9999 (rnd j)) \<in> keys d"
  show "gen_vps_id rnd k d = None"
  proof (cases "gen_vps_id rnd k d")
    case None
    then show ?thesis .
  next
    case (Some y)
    from gen_vps_id_Some_ex [OF Some] a show ?thesis by blast
  qed
qed

lemma randint_range: "a \<le> b \<Longrightarrow> a \<le> randint a b r \<and> randint a b r \<le> b"
proof -
  assume ab: "a \<le> b"
  then have pos: "0 < nat (b - a + 1)" by simp
  have "r mod nat (b - a + 1) < nat (b - a + 1)" using pos by (rule mod_less_divisor)
  then have "int (r mod nat (b - a + 1)) < b - a + 1" using ab by linarith
  then show ?thesis unfolding randint_def by simp
qed

lemma keys_reg_full: "keys reg_full = str ` {1000..9999}"
  unfolding keys_def reg_full_def by (simp del: upto_rec_numeral add: image_image)

text \<open>
  Claim C6, as the spec states it, fails: with every id from 1000 to 9999 taken,
  \<^verbatim>\<open>gen_vps_id\<close> raises no error, it never returns.
\<close>

theorem gen_vps_id_exhausted_loops: "gen_vps_id rnd_zero 0 reg_full = None"
proof -
  have "str (randint 1000 9999 (rnd_zero j)) \<in> keys reg_full" for j
    using randint_range [of 1000 9999 "rnd_zero j"] unfolding keys_reg_full by simp
  then show ?thesis by (simp add: gen_vps_id_None_iff)
qed

text \<open>
  Claim C6, amended. \<^verbatim>\<open>gen_vps_id\<close> draws random 4-digit decimal ids and returns
  the first draw that is not the id of a record. It returns exactly when some
  draw from the current position on is free: the loop does not return when
  every later draw is taken, and it has no guard for an exhausted id space, so
  when every id from 1000 to 9999 is taken it does not return for any random
  source.
\<close>

theorem gen_vps_id_returns_iff:
  "(gen_vps_id rnd k d = None \<longleftrightarrow> (\<forall>j\<ge>k. str (randint 1000 9999 (rnd j)) \<in> keys d)) \<and>
   (\<forall>vid k'. gen_vps_id rnd k d = Some (vid, k') \<longrightarrow>
      vid \<notin> keys d \<and> (\<exists>n. 1000 \<le> n \<and> n \<le> 9999 \<and> vid = str n) \<and>
      k < k' \<and> vid = str (randint 1000 9999 (rnd (k' - 1))) \<and>
      (\<forall>j. k \<le> j \<and> j < k' - 1 \<longrightarrow> str (randint 1000 9999 (rnd j)) \<in> keys d)) \<and>
   ((\<forall>n. 1000 \<le> n \<and> n \<le> 9999 \<longrightarrow> str n \<in> keys d) \<longrightarrow> gen_vps_id rnd k d = None)"
proof (intro conjI allI impI)
  show "gen_vps_id rnd k d = None \<longleftrightarrow> (\<forall>j\<ge>k. str (randint 1000 9999 (rnd j)) \<in> keys d)"
    by (rule gen_vps_id_None_iff)
next
  fix vid k' assume s: "gen_vps_id rnd k d = Some (vid, k')"
  from gen_vps_id_Some [OF s] obtain j where j: "k \<le> j"
    "\<forall>i. k \<le> i \<and> i < j \<longrightarrow> str (randint 1000 9999 (rnd i)) \<in> keys d"
    "str (randint 1000 9999 (rnd j)) \<notin> keys d" "vid = str (randint 1000 9999 (rnd j))" "k' = Suc j"
    by auto
  show "vid \<notin> keys d" using j by simp
  show "k < k'" using j by simp
  show "vid = str (randint 1000 9999 (rnd (k' - 1)))" using j by simp
  show "\<exists>n. 1000 \<le> n \<and> n \<le> 9999 \<and> vid = str n"
  proof -
    have "1000 \<le> randint 1000 9999 (rnd j) \<and> randint 1000 9999 (rnd j) \<le> 9999"
      by (rule randint_range) simp
    with j(4) show ?thesis by blast
  qed
  fix i assume "k \<le> i \<and> i < k' - 1"
  then show "str (randint 1000 9999 (rnd i)) \<in> keys d" using j by simp
next
  assume full: "\<forall>n. 1000 \<le> n \<and> n \<le> 9999 \<longrightarrow> str n \<in> keys d"
  have "str (randint 1000 9999 (rnd j)) \<in> keys d" for j
    using full randint_range [of 1000 9999 "rnd j"] by simp
  then show "gen_vps_id rnd k d = None" by (simp add: gen_vps_id_None_iff)
qed

text \<open>
  On the empty registry the first draw, 1000, is returned; on \<open>reg_web\<close>, where 1000
  is taken, a source that only draws 1000 never returns.
\<close>

theorem gen_vps_id_returns_iff_witness:
  "gen_vps_id rnd_zero 0 reg_empty = Some (''1000'', 1) \<and> ''1000'' \<notin> keys reg_empty \<and>
   (\<exists>n. 1000 \<le> n \<and> n \<le> 9999 \<and> ''1000'' = str n) \<and>
   ''1000'' \<in> keys reg_web \<and> gen_vps_id rnd_zero 0 reg_web = None"
proof -
  have a: "gen_vps_id rnd_zero 0 reg_empty = Some (''1000'', 1)" by code_simp
  have d: "str (randint 1000 9999 0) = ''1000''" by code_simp
  have m: "''1000'' \<in> keys reg_web" by code_simp
  have b: "\<forall>j\<ge>0. str (randint 1000 9999 (rnd_zero j)) \<in> keys reg_web"
    unfolding rnd_zero_def d using m by simp
  have n: "gen_vps_id rnd_zero 0 reg_web = None"
    using gen_vps_id_returns_iff [of rnd_zero 0 reg_web, THEN conjunct1] b by (rule iffD2)
  have s: "''1000'' \<notin> keys reg_empty \<and> (\<exists>n. 1000 \<le> n \<and> n \<le> 9999 \<and> ''1000'' = str n)"
    using gen_vps_id_returns_iff [of rnd_zero 0 reg_empty, THEN conjunct2, THEN conjunct1] a by blast
  from a s m n show ?thesis by blast
qed

section \<open>The example hosts at work\<close>

lemma strip_Nil: "strip [] = []"
  by (simp add: strip_def)

lemma run_shell_quiet:
  "run_shell quiet_shell c t s = (([], [], 0), s\<lparr>events := events s @ [Ran c t]\<rparr>)"
  by (simp add: run_shell_def quiet_shell_def strip_Nil)

lemma create_vm_process_quiet:
  "create_vm_process quiet_shell n r c d p s =
     ((True, ''VM launched, logs: '' @ log (vm_paths n)),
      s\<lparr>events := events s @ [Ran (cmd_img (qcow (vm_paths n)) d) 120,
                               Ran (qemu_cmd n r c (qcow (vm_paths n)) p (log (vm_paths n))) 120]\<rparr>)"
  by (simp add: create_vm_process_def Let_def run_shell_quiet)

lemma start_cb_quiet:
  "local_ssh_port v = Some p \<Longrightarrow>
   start_cb quiet_shell k v s =
     (Started (name v), v\<lparr>status := ''Running''\<rparr>,
      save_data (store_back k (v\<lparr>status := ''Running''\<rparr>)
        (s\<lparr>events := events s @
             [Ran (pgrep_cmd (name v)) 120,
              Ran (cmd_img (qcow (vm_paths (name v))) (disk_gb v)) 120,
              Ran (qemu_cmd (name v) (ram_mb v) (cpu v) (qcow (vm_paths (name v))) p
                     (log (vm_paths (name v)))) 120]\<rparr>)))"
  by (simp add: start_cb_def Let_def run_shell_quiet create_vm_process_quiet)

lemma vm_paths_web:
  "vm_paths ''web-1000'' =
     \<lparr>qcow = ''/root/vps_manager/web-1000.qcow2'', log = ''/root/vps_manager/web-1000_log.txt'',
      tmate_file = ''/root/vps_manager/web-1000_tmate.txt'',
      script = ''/root/vps_manager/create_web-1000.sh''\<rparr>"
  by code_simp

lemma cmd_img_web:
  "cmd_img ''/root/vps_manager/web-1000.qcow2'' 20 =
     ''qemu-img create -f qcow2 /root/vps_manager/web-1000.qcow2 20G''"
  by code_simp

lemma run_shell_launch_fails_img:
  "run_shell launch_fails_shell ''qemu-img create -f qcow2 /root/vps_manager/web-1000.qcow2 20G'' t s =
     (([], [], 0),
      s\<lparr>os := (os s)\<lparr>files := insert ''/root/vps_manager/web-1000.qcow2'' (files (os s))\<rparr>,
        events := events s @ [Ran ''qemu-img create -f qcow2 /root/vps_manager/web-1000.qcow2 20G'' t]\<rparr>)"
  by (simp add: run_shell_def launch_fails_shell_def strip_def)

lemma strip_kvm:
  "strip ''Could not access KVM kernel module'' = ''Could not access KVM kernel module''"
  by code_simp

lemma run_shell_launch_fails_qemu:
  "run_shell launch_fails_shell (qemu_cmd n r c q p l) t s =
     (([], ''Could not access KVM kernel module'', 1), s\<lparr>events := events s @ [Ran (qemu_cmd n r c q p l) t]\<rparr>)"
  by (simp add: run_shell_def launch_fails_shell_def qemu_cmd_def strip_kvm) (simp add: strip_def)

lemma createvps_launch_fails_eval:
  "createvps launch_fails_shell rnd_zero ''2024-01-01T00:00:00'' 42 ''web'' 2048 2 20 st_empty =
     Some (CreateFailed ''qemu launch failed: Could not access KVM kernel module'',
           \<lparr>data = reg_empty, data_file = None,
            os = \<lparr>files = {''/root/vps_manager/web-1000.qcow2''}, locked = {}, procs = {}\<rparr>,
            events = [Ran ''qemu-img create -f qcow2 /root/vps_manager/web-1000.qcow2 20G'' 120,
                      Ran (qemu_cmd ''web-1000'' 2048 2 ''/root/vps_manager/web-1000.qcow2'' 22700
                             ''/root/vps_manager/web-1000_log.txt'') 120],
            draws = 1\<rparr>)"
proof -
  have g: "gen_vps_id rnd_zero 0 reg_empty = Some (''1000'', 1)" by code_simp
  have f: "find_free_ssh_port reg_empty = Inr 22700" by code_simp
  have c: "create_vm_process launch_fails_shell ''web-1000'' 2048 2 20 22700 s =
     ((False, ''qemu launch failed: Could not access KVM kernel module''),
      s\<lparr>os := (os s)\<lparr>files := insert ''/root/vps_manager/web-1000.qcow2'' (files (os s))\<rparr>,
        events := events s @ [Ran ''qemu-img create -f qcow2 /root/vps_manager/web-1000.qcow2 20G'' 120,
                      Ran (qemu_cmd ''web-1000'' 2048 2 ''/root/vps_manager/web-1000.qcow2'' 22700
                             ''/root/vps_manager/web-1000_log.txt'') 120]\<rparr>)" for s
    by (simp add: create_vm_process_def Let_def vm_paths_web cmd_img_web run_shell_launch_fails_img
        run_shell_launch_fails_qemu or_str_def)
  show ?thesis
    by (simp add: createvps_def st_empty_def g f c Let_def host_empty_def)
qed

section \<open>A create that fails\<close>

text \<open>
  Claim C1, as the spec states it, fails in its last clause. On a host without
  files, with \<^verbatim>\<open>qemu-img\<close> working and the launch failing, \<^verbatim>\<open>createvps\<close> replies
  with the failure and returns; the disk image that \<^verbatim>\<open>qemu-img\<close> wrote is still
  on the host, and no removal is among the events.
\<close>

theorem createvps_launch_failure_leaves_disk:
  "files (os st_empty) = {} \<and>
   createvps launch_fails_shell rnd_zero ''2024-01-01T00:00:00'' 42 ''web'' 2048 2 20 st_empty =
     Some (CreateFailed ''qemu launch failed: Could not access KVM kernel module'',
           \<lparr>data = reg_empty, data_file = None,
            os = \<lparr>files = {''/root/vps_manager/web-1000.qcow2''}, locked = {}, procs = {}\<rparr>,
            events = [Ran ''qemu-img create -f qcow2 /root/vps_manager/web-1000.qcow2 20G'' 120,
                      Ran (qemu_cmd ''web-1000'' 2048 2 ''/root/vps_manager/web-1000.qcow2'' 22700
                             ''/root/vps_manager/web-1000_log.txt'') 120],
            draws = 1\<rparr>)"
  using createvps_launch_fails_eval by (simp add: st_empty_def host_empty_def)

lemma gen_vps_id_free:
  "gen_vps_id rnd k d = Some (vid, k') \<Longrightarrow> vid \<notin> keys d"
  using gen_vps_id_Some [of rnd k d "(vid, k')"] by auto

text \<open>
  Claim C1, amended. When \<^verbatim>\<open>createvps\<close> replies that no port is free or that the
  creation failed, nothing is persisted: the registry (records and admins) and
  the data file are as before. The id that was allocated is the id of no
  record, and the same draws allocate it again; when no port was free the state
  is unchanged but for the draws used; otherwise the port that was allocated is
  the one the next allocation returns. The create path cleans nothing up: all it
  did to the host is the disk-image command and, when that returned 0, the
  launch command, so an image written by the first stays when the second fails.
\<close>

theorem createvps_failure_persists_nothing:
  assumes "createvps sh rnd now caller base ram cpus disk s = Some (r, s')"
    and "r = NoFreePorts \<or> (\<exists>msg. r = CreateFailed msg)"
  shows "data s' = data s \<and> data_file s' = data_file s \<and>
    (\<exists>vps_id k.
       gen_vps_id rnd (draws s) (data s) = Some (vps_id, k) \<and>
       vps_id \<notin> keys (data s') \<and>
       gen_vps_id rnd (draws s) (data s') = Some (vps_id, k) \<and>
       (r = NoFreePorts \<longrightarrow> s' = s\<lparr>draws := k\<rparr>) \<and>
       (\<forall>msg. r = CreateFailed msg \<longrightarrow>
          (\<exists>p. find_free_ssh_port (data s) = Inr p \<and> find_free_ssh_port (data s') = Inr p \<and>
               (events s' = events s @ [Ran (cmd_img (qcow (vm_paths (base @ ''-'' @ vps_id))) disk) 120] \<or>
                events s' = events s @
                  [Ran (cmd_img (qcow (vm_paths (base @ ''-'' @ vps_id))) disk) 120,
                   Ran (qemu_cmd (base @ ''-'' @ vps_id) ram cpus
                          (qcow (vm_paths (base @ ''-'' @ vps_id))) p
                          (log (vm_paths (base @ ''-'' @ vps_id)))) 120]))))"
proof -
  from assms(1) obtain vps_id k where g: "gen_vps_id rnd (draws s) (data s) = Some (vps_id, k)"
    by (auto simp: createvps_def split: option.splits)
  have free: "vps_id \<notin> keys (data s)" using g by (rule gen_vps_id_free)
  define s0 where "s0 = s\<lparr>draws := k\<rparr>"
  define vm_name where "vm_name = base @ ''-'' @ vps_id"
  have d0: "data s0 = data s" "data_file s0 = data_file s" "events s0 = events s"
    by (simp_all add: s0_def)
  show ?thesis
  proof (cases "find_free_ssh_port (data s)")
    case (Inl e)
    with assms(1) g have "r = NoFreePorts" "s' = s\<lparr>draws := k\<rparr>"
      by (simp_all add: createvps_def Let_def)
    with g free show ?thesis by auto
  next
    case (Inr p)
    obtain ok msg s1 where c: "create_vm_process sh vm_name ram cpus disk p s0 = ((ok, msg), s1)"
      by (metis surj_pair)
    from create_vm_process_frame [OF c] have fr: "data s1 = data s" "data_file s1 = data_file s"
      using d0 by simp_all
    from create_vm_process_events [OF c]
    have ev: "events s1 = events s @ [Ran (cmd_img (qcow (vm_paths vm_name)) disk) 120] \<or>
              events s1 = events s @ [Ran (cmd_img (qcow (vm_paths vm_name)) disk) 120,
                 Ran (qemu_cmd vm_name ram cpus (qcow (vm_paths vm_name)) p (log (vm_paths vm_name))) 120]"
      using d0 by auto
    have notok: "\<not> ok"
    proof
      assume ok
      with assms(1) g Inr c have "\<exists>a b. r = VpsCreated a b"
        by (auto simp: createvps_def Let_def s0_def vm_name_def split: prod.splits)
      with assms(2) show False by auto
    qed
    with assms(1) g Inr c have res: "r = CreateFailed msg" "s' = s1"
      by (simp_all add: createvps_def Let_def s0_def vm_name_def)
    from res fr ev g free Inr show ?thesis
      unfolding vm_name_def by auto
  qed
qed

text \<open>
  The failed launch of the example above: id 1000 and port 22700 stay free.
\<close>

theorem createvps_failure_persists_nothing_witness:
  "createvps launch_fails_shell rnd_zero ''2024-01-01T00:00:00'' 42 ''web'' 2048 2 20 st_empty =
     Some (CreateFailed ''qemu launch failed: Could not access KVM kernel module'',
           \<lparr>data = reg_empty, data_file = None,
            os = \<lparr>files = {''/root/vps_manager/web-1000.qcow2''}, locked = {}, procs = {}\<rparr>,
            events = [Ran ''qemu-img create -f qcow2 /root/vps_manager/web-1000.qcow2 20G'' 120,
                      Ran (qemu_cmd ''web-1000'' 2048 2 ''/root/vps_manager/web-1000.qcow2'' 22700
                             ''/root/vps_manager/web-1000_log.txt'') 120],
            draws = 1\<rparr>) \<and>
   (\<exists>vps_id k. gen_vps_id rnd_zero (draws st_empty) (data st_empty) = Some (vps_id, k) \<and>
       vps_id \<notin> keys reg_empty) \<and>
   (\<exists>p. find_free_ssh_port (data st_empty) = Inr p \<and> find_free_ssh_port reg_empty = Inr p)"
proof -
  note e = createvps_launch_fails_eval
  have "\<exists>msg. CreateFailed ''qemu launch failed: Could not access KVM kernel module'' = CreateFailed msg"
    by blast
  then have h: "CreateFailed ''qemu launch failed: Could not access KVM kernel module'' = NoFreePorts \<or>
     (\<exists>msg. CreateFailed ''qemu launch failed: Could not access KVM kernel module'' = CreateFailed msg)"
    by blast
  from createvps_failure_persists_nothing [OF e h] have
    "\<exists>vps_id k. gen_vps_id rnd_zero (draws st_empty) (data st_empty) = Some (vps_id, k) \<and>
       vps_id \<notin> keys reg_empty"
    "\<exists>p. find_free_ssh_port (data st_empty) = Inr p \<and> find_free_ssh_port reg_empty = Inr p"
    by (simp, blast)+
  with e show ?thesis by blast
qed

section \<open>Callers without rights\<close>

text \<open>
  The buttons of a view never look at who presses them: \<^verbatim>\<open>stop_cb\<close> always runs
  \<^verbatim>\<open>pkill\<close> and replies that the machine stopped, and neither \<^verbatim>\<open>start_cb\<close> nor
  \<^verbatim>\<open>restart_cb\<close> has a reply "Not authorized".
\<close>

lemma store_back_events: "events (store_back k v s) = events s"
  by (cases k) (simp_all add: store_back_def put_vps_def)

lemma stop_cb_reply:
  "fst (stop_cb sh k v s) = Stopped (name v) \<and>
   events (snd (snd (stop_cb sh k v s))) = events s @ [Ran (pkill_cmd (name v)) 120]"
proof -
  obtain res s1 where p: "run_shell sh (pkill_cmd (name v)) 120 s = (res, s1)"
    by (metis surj_pair)
  from run_shell_frame [OF p] have e: "events s1 = events s @ [Ran (pkill_cmd (name v)) 120]"
    by simp
  from p show ?thesis
    by (simp add: stop_cb_def Let_def save_data_eq store_back_events e split: prod.splits)
qed

lemma start_cb_reply: "fst (start_cb sh k v s) \<noteq> NotAuthorized"
  by (simp add: start_cb_def Let_def split: prod.splits option.splits)

lemma restart_cb_reply: "NotAuthorized \<notin> set (fst (restart_cb sh k v s))"
proof -
  obtain r1 v1 s1 where a: "stop_cb sh k v s = (r1, v1, s1)" by (metis prod_cases3)
  obtain r2 v2 s2 where b: "start_cb sh k v1 s1 = (r2, v2, s2)" by (metis prod_cases3)
  from a stop_cb_reply [of sh k v s] have r1: "r1 = Stopped (name v)" by simp
  from b start_cb_reply [of sh k v1 s1] have r2: "r2 \<noteq> NotAuthorized" by simp
  from a b r1 r2 show ?thesis by (auto simp: restart_cb_def)
qed

lemma str_5: "str 5 = ''5''"
  by (simp add: str_def str_nat.simps digit_char_def)

text \<open>
  Claim C3, as the spec states it, fails for start, stop, restart and SSH info.
  The owner 1 makes user 5 an admin; \<^verbatim>\<open>manage\<close> gives 5 the view of the machine of
  user 42; the owner removes 5 from the admins. User 5 is now neither the user of
  the record nor an admin, and the start button of the view still replies that
  the machine started: the commands ran and the record went from Stopped to
  Running.
\<close>

theorem view_outlives_authorization:
  "addadmin 1 1 5 st_web = (AdminAdded 5, st_two_admins) \<and>
   manage 5 ''1000'' st_two_admins = (ManageView ''1000'', st_two_admins) \<and>
   removeadmin 1 1 5 st_two_admins = (AdminRemoved 5, st_web) \<and>
   get_vps st_web ''1000'' = Some vm_web \<and>
   user vm_web \<noteq> str 5 \<and> 5 \<notin> set (admins (data st_web)) \<and>
   status vm_web = ''Stopped'' \<and>
   fst (start_cb quiet_shell (Some ''1000'') vm_web st_web) = Started ''web-1000'' \<and>
   map_option status (get_vps (snd (snd (start_cb quiet_shell (Some ''1000'') vm_web st_web))) ''1000'') =
     Some ''Running'' \<and>
   events (snd (snd (start_cb quiet_shell (Some ''1000'') vm_web st_web))) =
     [Ran (pgrep_cmd ''web-1000'') 120,
      Ran ''qemu-img create -f qcow2 /root/vps_manager/web-1000.qcow2 20G'' 120,
      Ran (qemu_cmd ''web-1000'' 2048 2 ''/root/vps_manager/web-1000.qcow2'' 22700
             ''/root/vps_manager/web-1000_log.txt'') 120]"
proof -
  have a: "addadmin 1 1 5 st_web = (AdminAdded 5, st_two_admins)"
    by (simp add: addadmin_def st_web_def reg_web_def st_two_admins_def save_data_eq)
  have g2: "get_vps st_two_admins ''1000'' = Some vm_web"
    by (simp add: get_vps_def st_two_admins_def)
  have m: "manage 5 ''1000'' st_two_admins = (ManageView ''1000'', st_two_admins)"
    by (simp add: manage_def g2 is_admin_def) (simp add: st_two_admins_def)
  have r: "removeadmin 1 1 5 st_two_admins = (AdminRemoved 5, st_web)"
    by (simp add: removeadmin_def st_web_def reg_web_def st_two_admins_def save_data_eq)
  have g: "get_vps st_web ''1000'' = Some vm_web"
    by (simp add: get_vps_def st_web_def reg_web_def)
  have u: "user vm_web \<noteq> str 5" by (simp add: vm_web_def str_5)
  have n: "5 \<notin> set (admins (data st_web))" by (simp add: st_web_def reg_web_def)
  have st: "status vm_web = ''Stopped''" by (simp add: vm_web_def)
  have p: "local_ssh_port vm_web = Some 22700" by (simp add: vm_web_def)
  have f: "name vm_web = ''web-1000''" "disk_gb vm_web = 20" "ram_mb vm_web = 2048" "cpu vm_web = 2"
    by (simp_all add: vm_web_def)
  have e: "events st_web = []" by (simp add: st_web_def)
  have s: "fst (start_cb quiet_shell (Some ''1000'') vm_web st_web) = Started ''web-1000'' \<and>
   map_option status (get_vps (snd (snd (start_cb quiet_shell (Some ''1000'') vm_web st_web))) ''1000'') =
     Some ''Running'' \<and>
   events (snd (snd (start_cb quiet_shell (Some ''1000'') vm_web st_web))) =
     [Ran (pgrep_cmd ''web-1000'') 120,
      Ran ''qemu-img create -f qcow2 /root/vps_manager/web-1000.qcow2 20G'' 120,
      Ran (qemu_cmd ''web-1000'' 2048 2 ''/root/vps_manager/web-1000.qcow2'' 22700
             ''/root/vps_manager/web-1000_log.txt'') 120]"
    unfolding start_cb_quiet [OF p] f vm_paths_web
    by (simp add: save_data_eq store_back_def put_vps_def get_vps_def update_conv' e cmd_img_web)
  from a m r g u n st s show ?thesis by blast
qed

text \<open>
  Claim C3, amended. For a caller who is neither the user of the record nor an
  admin, \<^verbatim>\<open>manage\<close>, \<^verbatim>\<open>deletevps\<close>, \<^verbatim>\<open>reinstallvps\<close> and \<^verbatim>\<open>renewssh\<close> reply
  "Not authorized" and return the state they were given: the record and the rest
  of the registry, the data file, the host and the list of events are unchanged,
  so no command was run and no file touched, and \<^verbatim>\<open>manage\<close> hands out no view. The
  check is made there and nowhere else: the buttons of a view that exists make
  none. Pressed in that same state, stop replies that the machine stopped and
  runs \<^verbatim>\<open>pkill\<close>, start and restart have no reply "Not authorized", and SSH info
  shows the two connection strings.
\<close>

theorem unauthorized_caller_rejected:
  assumes "get_vps s vps_id = Some v"
    and "user v \<noteq> str caller"
    and "caller \<notin> set (admins (data s))"
  shows "manage caller vps_id s = (NotAuthorized, s) \<and>
         deletevps sh caller vps_id s = (NotAuthorized, s) \<and>
         reinstallvps sh caller vps_id s = (NotAuthorized, s) \<and>
         renewssh sh caller vps_id s = (NotAuthorized, s) \<and>
         fst (stop_cb sh (Some vps_id) v s) = Stopped (name v) \<and>
         events (snd (snd (stop_cb sh (Some vps_id) v s))) =
           events s @ [Ran (pkill_cmd (name v)) 120] \<and>
         fst (start_cb sh (Some vps_id) v s) \<noteq> NotAuthorized \<and>
         NotAuthorized \<notin> set (fst (restart_cb sh (Some vps_id) v s)) \<and>
         ssh_cb v s = (SshInfo (local_ssh v) (tmate v), v, s)"
proof -
  have "manage caller vps_id s = (NotAuthorized, s) \<and>
         deletevps sh caller vps_id s = (NotAuthorized, s) \<and>
         reinstallvps sh caller vps_id s = (NotAuthorized, s) \<and>
         renewssh sh caller vps_id s = (NotAuthorized, s)"
    using assms by (simp add: manage_def deletevps_def reinstallvps_def renewssh_def is_admin_def)
  moreover have "ssh_cb v s = (SshInfo (local_ssh v) (tmate v), v, s)" by (simp add: ssh_cb_def)
  ultimately show ?thesis
    using stop_cb_reply [of sh "Some vps_id" v s] start_cb_reply [of sh "Some vps_id" v s]
      restart_cb_reply [of sh "Some vps_id" v s]
    by blast
qed

text \<open>User 7 on the machine of user 42, with 1 the only admin.\<close>

theorem unauthorized_caller_rejected_witness:
  "get_vps st_web ''1000'' = Some vm_web \<and> user vm_web \<noteq> str 7 \<and> 7 \<notin> set (admins (data st_web)) \<and>
   manage 7 ''1000'' st_web = (NotAuthorized, st_web) \<and>
   deletevps quiet_shell 7 ''1000'' st_web = (NotAuthorized, st_web) \<and>
   reinstallvps quiet_shell 7 ''1000'' st_web = (NotAuthorized, st_web) \<and>
   renewssh quiet_shell 7 ''1000'' st_web = (NotAuthorized, st_web) \<and>
   fst (stop_cb quiet_shell (Some ''1000'') vm_web st_web) = Stopped ''web-1000'' \<and>
   events (snd (snd (stop_cb quiet_shell (Some ''1000'') vm_web st_web))) =
     [Ran (pkill_cmd ''web-1000'') 120]"
proof -
  have h1: "get_vps st_web ''1000'' = Some vm_web" by code_simp
  have h2: "user vm_web \<noteq> str 7" by code_simp
  have h3: "7 \<notin> set (admins (data st_web))" by code_simp
  have n: "name vm_web = ''web-1000''" by (simp add: vm_web_def)
  have e: "events st_web = []" by (simp add: st_web_def)
  from unauthorized_caller_rejected [OF h1 h2 h3, of quiet_shell] h1 h2 h3 show ?thesis
    unfolding n e by simp
qed

section \<open>Saving the registry\<close>

text \<open>
  Claim C4, as the spec states it, fails: \<^verbatim>\<open>save_data\<close> opens the data file itself
  for writing. With a data file that loads, a crash after the first step of a
  save leaves a file on which \<^verbatim>\<open>load_data\<close> fails.
\<close>

theorem save_data_crash_truncates:
  "load_data 1 (data_file st_web) = Inr reg_web \<and>
   load_data 1 (data_file (crash_after 1 st_web)) = Inl JSONDecodeError"
  by code_simp

text \<open>
  Claim C4, amended. \<^verbatim>\<open>save_data\<close> writes the data file in place, with no temporary
  path and no rename: it touches nothing on the host. A save that runs to its end
  leaves the document of the current registry, which \<^verbatim>\<open>load_data\<close> returns; a
  crash before the first step leaves the file as it was; a crash between
  \<^verbatim>\<open>open\<close> and \<^verbatim>\<open>json.dump\<close> leaves the file empty, and \<^verbatim>\<open>load_data\<close> fails on it.
\<close>

theorem save_data_in_place:
  "load_data OWNER_ID (data_file (save_data s)) = Inr (data s) \<and>
   crash_after 0 s = s \<and>
   data_file (crash_after 1 s) = Some Truncated \<and>
   load_data OWNER_ID (data_file (crash_after 1 s)) = Inl JSONDecodeError \<and>
   crash_after 2 s = save_data s \<and>
   os (save_data s) = os s \<and> events (save_data s) = events s \<and> data (save_data s) = data s"
  by (simp add: save_data_def crash_after_def run_steps_def save_data_steps_def open_w_def
      json_dump_def load_data_def numeral_2_eq_2)

section \<open>Starting a machine\<close>

text \<open>
  What \<^verbatim>\<open>start_cb\<close> does, for any behaviour of the tools: a machine that \<^verbatim>\<open>pgrep\<close>
  finds is marked Running and nothing is launched; a start that fails leaves the
  record, the registry and the data file as they were; and whenever \<^verbatim>\<open>pgrep\<close>
  finds nothing, the first command run is \<^verbatim>\<open>qemu-img create\<close> on the machine's
  disk.
\<close>

lemma start_cb_running:
  "run_shell sh (pgrep_cmd (name v)) 120 s = ((out, err, rc), s1) \<Longrightarrow> out \<noteq> [] \<Longrightarrow>
   start_cb sh k v s =
     (AlreadyRunning (name v), v\<lparr>status := ''Running''\<rparr>,
      save_data (store_back k (v\<lparr>status := ''Running''\<rparr>) s1))"
  by (simp add: start_cb_def Let_def)

lemma start_cb_failed:
  assumes "start_cb sh k v s = (StartFailed msg, v', s')"
  shows "v' = v \<and> data s' = data s \<and> data_file s' = data_file s"
proof -
  obtain out err rc s1 where p: "run_shell sh (pgrep_cmd (name v)) 120 s = ((out, err, rc), s1)"
    by (metis surj_pair)
  from run_shell_frame [OF p] have f1: "data s1 = data s" "data_file s1 = data_file s" by simp_all
  from assms p have o: "out = []" by (auto simp: start_cb_def Let_def split: if_splits)
  from assms p o obtain port where port: "local_ssh_port v = Some port"
    by (cases "local_ssh_port v") (auto simp: start_cb_def Let_def)
  obtain ok m s2 where c:
    "create_vm_process sh (name v) (ram_mb v) (cpu v) (disk_gb v) port s1 = ((ok, m), s2)"
    by (metis surj_pair)
  from assms p o port c have "v' = v \<and> s' = s2"
    by (auto simp: start_cb_def Let_def split: if_splits)
  with create_vm_process_frame [OF c] f1 show ?thesis by simp
qed

lemma start_cb_runs_qemu_img:
  assumes "run_shell sh (pgrep_cmd (name v)) 120 s = (([], err, rc), s1)"
    and "local_ssh_port v = Some port"
    and "start_cb sh k v s = (r, v', s')"
  shows "\<exists>rest. events s' =
           events s @ [Ran (pgrep_cmd (name v)) 120,
                       Ran (cmd_img (qcow (vm_paths (name v))) (disk_gb v)) 120] @ rest"
proof -
  from run_shell_frame [OF assms(1)] have e1: "events s1 = events s @ [Ran (pgrep_cmd (name v)) 120]"
    by simp
  obtain ok m s2 where c:
    "create_vm_process sh (name v) (ram_mb v) (cpu v) (disk_gb v) port s1 = ((ok, m), s2)"
    by (metis surj_pair)
  from create_vm_process_events [OF c] e1
  have e2: "\<exists>rest. events s2 = events s @ [Ran (pgrep_cmd (name v)) 120,
                       Ran (cmd_img (qcow (vm_paths (name v))) (disk_gb v)) 120] @ rest"
    by auto
  from assms c have "events s' = events s2"
    by (auto simp: start_cb_def Let_def save_data_eq store_back_def put_vps_def
        split: if_splits option.splits)
  with e2 show ?thesis by simp
qed

text \<open>
  Claim C5 holds of the spec and not of the code. \<^verbatim>\<open>start_cb\<close> says in its comments
  that it launches a new qemu with the saved arguments, and calls
  \<^verbatim>\<open>create_vm_process\<close>, which runs \<^verbatim>\<open>qemu-img create\<close> on the path of the machine's
  disk before it launches. Starting the stopped machine of the example, with no
  process found by \<^verbatim>\<open>pgrep\<close>, runs the disk-creation command on the existing
  image and then the launch.
\<close>

theorem start_cb_recreates_disk:
  "''/root/vps_manager/web-1000.qcow2'' \<in> files (os st_web) \<and>
   fst (start_cb quiet_shell (Some ''1000'') vm_web st_web) = Started ''web-1000'' \<and>
   events (snd (snd (start_cb quiet_shell (Some ''1000'') vm_web st_web))) =
     [Ran (pgrep_cmd ''web-1000'') 120,
      Ran ''qemu-img create -f qcow2 /root/vps_manager/web-1000.qcow2 20G'' 120,
      Ran (qemu_cmd ''web-1000'' 2048 2 ''/root/vps_manager/web-1000.qcow2'' 22700
             ''/root/vps_manager/web-1000_log.txt'') 120]"
proof -
  have p: "local_ssh_port vm_web = Some 22700" by (simp add: vm_web_def)
  have n: "name vm_web = ''web-1000''" "disk_gb vm_web = 20" "ram_mb vm_web = 2048" "cpu vm_web = 2"
    by (simp_all add: vm_web_def)
  have e: "events st_web = []" by (simp add: st_web_def)
  have f: "''/root/vps_manager/web-1000.qcow2'' \<in> files (os st_web)"
    by (simp add: st_web_def host_web_def)
  show ?thesis
    unfolding start_cb_quiet [OF p] n vm_paths_web
    by (simp add: save_data_eq store_back_def put_vps_def e f cmd_img_web)
qed

section \<open>Reading and writing records\<close>

lemma get_vps_put:
  "get_vps (put_vps k v s) k' = (if k' = k then Some v else get_vps s k')"
  by (simp add: get_vps_def put_vps_def update_conv')

lemma get_vps_save: "get_vps (save_data s) k = get_vps s k"
  by (simp add: get_vps_def save_data_eq)




lemma find_free_not_used:
  "find_free_ssh_port d = Inr p \<Longrightarrow> 22700 \<le> p \<and> p \<le> 22999 \<and> p \<notin> used_ports d"
  unfolding find_free_ssh_port_def SSH_PORT_MIN_def SSH_PORT_MAX_def first_free_upto_Inr by simp

lemma find_free_le:
  assumes "22700 \<le> p" "p \<le> 22999" "p \<notin> used_ports d"
  shows "\<exists>q. find_free_ssh_port d = Inr q \<and> q \<le> p"
proof (cases "find_free_ssh_port d")
  case (Inl e)
  then have "\<forall>q. 22700 \<le> q \<and> q \<le> 22999 \<longrightarrow> q \<in> used_ports d"
    unfolding find_free_ssh_port_def SSH_PORT_MIN_def SSH_PORT_MAX_def first_free_upto_Inl by simp
  with assms show ?thesis by blast
next
  case (Inr q)
  then have "\<forall>r. 22700 \<le> r \<and> r < q \<longrightarrow> r \<in> used_ports d"
    unfolding find_free_ssh_port_def SSH_PORT_MIN_def SSH_PORT_MAX_def first_free_upto_Inr by simp
  with assms have "\<not> p < q" by blast
  with Inr show ?thesis by simp
qed

lemma vps_entry_after_put:
  assumes "distinct (map fst (vps (data s)))"
    and "(k', w) \<in> set (vps (data (put_vps k v s)))"
  shows "(k' = k \<and> w = v) \<or> (k' \<noteq> k \<and> (k', w) \<in> set (vps (data s)))"
proof -
  have d: "distinct (map fst (AList.update k v (vps (data s))))"
    using assms(1) by (rule distinct_update)
  from assms(2) have "(k', w) \<in> set (AList.update k v (vps (data s)))" by (simp add: put_vps_def)
  with d have "map_of (AList.update k v (vps (data s))) k' = Some w" by simp
  then have m: "((map_of (vps (data s)))(k \<mapsto> v)) k' = Some w" by (simp add: update_conv')
  show ?thesis
  proof (cases "k' = k")
    case True
    with m show ?thesis by simp
  next
    case False
    with m have "map_of (vps (data s)) k' = Some w" by simp
    then have "(k', w) \<in> set (vps (data s))" by (rule map_of_SomeD)
    with False show ?thesis by simp
  qed
qed

section \<open>Renewing the port\<close>

text \<open>
  Claim C7. Let the keys of the registry be distinct, as the keys of a dict are.
  When \<^verbatim>\<open>renewssh\<close> succeeds on an existing record, the port it stores is the one
  \<^verbatim>\<open>find_free_ssh_port\<close> returned on the registry before, and it differs from the
  record's previous port. The previous port, when no other record holds it, is no
  longer among the used ports of the registry after: the used ports are computed
  from the current records, so the next allocation finds it free, and returns it
  or a lower port when it lies in the range.
\<close>

theorem renewssh_new_port:
  assumes "distinct (map fst (vps (data s)))"
    and "get_vps s vps_id = Some v"
    and "renewssh sh caller vps_id s = (NewSsh l t, s')"
  shows "\<exists>v' p'.
     find_free_ssh_port (data s) = Inr p' \<and>
     get_vps s' vps_id = Some v' \<and> local_ssh_port v' = Some p' \<and> l = ssh_line p' \<and>
     local_ssh_port v \<noteq> Some p' \<and>
     (\<forall>p. local_ssh_port v = Some p \<and>
          (\<forall>k w. (k, w) \<in> set (vps (data s)) \<and> k \<noteq> vps_id \<longrightarrow> local_ssh_port w \<noteq> Some p) \<longrightarrow>
          p \<notin> used_ports (data s') \<and>
          (22700 \<le> p \<and> p \<le> 22999 \<longrightarrow> (\<exists>q. find_free_ssh_port (data s') = Inr q \<and> q \<le> p)))"
proof -
  have auth: "\<not> (user v \<noteq> str caller \<and> \<not> is_admin (data s) caller)"
  proof
    assume "user v \<noteq> str caller \<and> \<not> is_admin (data s) caller"
    with assms(2,3) show False by (simp add: renewssh_def)
  qed
  obtain p' where fp: "find_free_ssh_port (data s) = Inr p'"
  proof (cases "find_free_ssh_port (data s)")
    case (Inl e)
    with assms(2,3) auth show ?thesis by (simp add: renewssh_def Let_def)
  next
    case (Inr p)
    then show ?thesis by (rule that)
  qed
  from find_free_not_used [OF fp] have rng: "22700 \<le> p'" and nu: "p' \<notin> used_ports (data s)"
    by simp_all
  obtain res s1 where k: "run_shell sh (pkill_cmd (name v)) 10 s = (res, s1)"
    by (metis surj_pair)
  obtain ok msg s2 where c:
    "create_vm_process sh (name v) (ram_mb v) (cpu v) (disk_gb v) p' s1 = ((ok, msg), s2)"
    by (metis surj_pair)
  have ok: ok
  proof (rule ccontr)
    assume "\<not> ok"
    with assms(2,3) auth fp k c show False by (simp add: renewssh_def Let_def)
  qed
  obtain tok tt s3 where g: "generate_tmate sh (name v) s2 = ((tok, tt), s3)"
    by (metis surj_pair)
  define v' where "v' = v\<lparr>local_ssh_port := Some p', local_ssh := ssh_line p',
     tmate := (if tok then tt else ''Failed to generate tmate: '' @ tt), status := ''Running''\<rparr>"
  from assms(2,3) auth fp k c ok g
  have res: "l = ssh_line p'" "s' = save_data (put_vps vps_id v' s3)"
    by (auto simp: renewssh_def Let_def v'_def)
  have d3: "data s3 = data s"
    using run_shell_frame [OF k] create_vm_process_frame [OF c] generate_tmate_frame [OF g] by simp
  have gv: "get_vps s' vps_id = Some v'" by (simp add: res get_vps_save get_vps_put)
  have pv: "local_ssh_port v' = Some p'" by (simp add: v'_def)
  have vin: "v \<in> set (vps_values (data s))"
  proof -
    from assms(2) have "(vps_id, v) \<in> set (vps (data s))"
      unfolding get_vps_def by (rule map_of_SomeD)
    then show ?thesis unfolding vps_values_def by force
  qed
  have diff: "local_ssh_port v \<noteq> Some p'"
  proof
    assume "local_ssh_port v = Some p'"
    moreover have "p' \<noteq> 0" using rng by arith
    ultimately have "p' \<in> used_ports (data s)" using vin by (auto simp: used_ports_iff)
    with nu show False by simp
  qed
  have avail: "p \<notin> used_ports (data s') \<and>
          (22700 \<le> p \<and> p \<le> 22999 \<longrightarrow> (\<exists>q. find_free_ssh_port (data s') = Inr q \<and> q \<le> p))"
    if old: "local_ssh_port v = Some p"
      and others: "\<forall>k w. (k, w) \<in> set (vps (data s)) \<and> k \<noteq> vps_id \<longrightarrow> local_ssh_port w \<noteq> Some p"
    for p
  proof -
    have dist3: "distinct (map fst (vps (data s3)))" using assms(1) d3 by simp
    have "p \<notin> used_ports (data s')"
    proof
      assume "p \<in> used_ports (data s')"
      then obtain w where w: "w \<in> set (vps_values (data s'))" "local_ssh_port w = Some p"
        by (auto simp: used_ports_iff)
      from w(1) obtain k' where "(k', w) \<in> set (vps (data s'))"
        unfolding vps_values_def by auto
      then have "(k', w) \<in> set (vps (data (put_vps vps_id v' s3)))"
        by (simp add: res save_data_eq)
      from vps_entry_after_put [OF dist3 this]
      have "(k' = vps_id \<and> w = v') \<or> (k' \<noteq> vps_id \<and> (k', w) \<in> set (vps (data s)))"
        by (simp add: d3)
      then show False
      proof
        assume "k' = vps_id \<and> w = v'"
        with w(2) pv have "p = p'" by simp
        with old diff show False by simp
      next
        assume "k' \<noteq> vps_id \<and> (k', w) \<in> set (vps (data s))"
        with others w(2) show False by blast
      qed
    qed
    then show ?thesis using find_free_le by blast
  qed
  from fp gv pv res(1) diff avail show ?thesis by blast
qed


lemma generate_tmate_quiet:
  "\<exists>s'. generate_tmate quiet_shell n s = ((False, ''tmate display failed: ''), s')"
  by (simp add: generate_tmate_def Let_def run_shell_quiet or_str_def)

lemma renewssh_quiet:
  assumes "get_vps s k = Some v" and "user v = str caller"
    and "find_free_ssh_port (data s) = Inr p"
  shows "fst (renewssh quiet_shell caller k s) =
     NewSsh (ssh_line p) ''Failed to generate tmate: tmate display failed: ''"
proof -
  define s2 where "s2 = s\<lparr>events := events s @
       [Ran (pkill_cmd (name v)) 10,
        Ran (cmd_img (qcow (vm_paths (name v))) (disk_gb v)) 120,
        Ran (qemu_cmd (name v) (ram_mb v) (cpu v) (qcow (vm_paths (name v))) p
               (log (vm_paths (name v)))) 120]\<rparr>"
  obtain s3 where g: "generate_tmate quiet_shell (name v) s2 = ((False, ''tmate display failed: ''), s3)"
    using generate_tmate_quiet by blast
  show ?thesis
    using assms g
    by (simp add: renewssh_def Let_def run_shell_quiet create_vm_process_quiet s2_def)
qed

text \<open>
  The machine of \<open>st_web\<close> moves from port 22700 to 22701, and the next allocation
  returns 22700.
\<close>

theorem renewssh_new_port_witness:
  "get_vps st_web ''1000'' = Some vm_web \<and> local_ssh_port vm_web = Some 22700 \<and>
   fst (renewssh quiet_shell 42 ''1000'' st_web) =
     NewSsh ''ssh ubuntu@localhost -p 22701'' ''Failed to generate tmate: tmate display failed: '' \<and>
   map_option local_ssh_port (get_vps (snd (renewssh quiet_shell 42 ''1000'' st_web)) ''1000'') =
     Some (Some 22701) \<and>
   22700 \<notin> used_ports (data (snd (renewssh quiet_shell 42 ''1000'' st_web))) \<and>
   find_free_ssh_port (data (snd (renewssh quiet_shell 42 ''1000'' st_web))) = Inr 22700"
proof -
  define s' where "s' = snd (renewssh quiet_shell 42 ''1000'' st_web)"
  have h0: "distinct (map fst (vps (data st_web)))" by (simp add: st_web_def reg_web_def)
  have h1: "get_vps st_web ''1000'' = Some vm_web" by code_simp
  have u: "user vm_web = str 42" by code_simp
  have fp: "find_free_ssh_port (data st_web) = Inr 22701" by code_simp
  have sl: "ssh_line 22701 = ''ssh ubuntu@localhost -p 22701''"
    by (simp add: ssh_line_def str_def str_nat.simps digit_char_def)
  have pv: "local_ssh_port vm_web = Some 22700" by (simp add: vm_web_def)
  have f: "fst (renewssh quiet_shell 42 ''1000'' st_web) =
     NewSsh ''ssh ubuntu@localhost -p 22701'' ''Failed to generate tmate: tmate display failed: ''"
    using renewssh_quiet [OF h1 u fp] sl by simp
  then have h2: "renewssh quiet_shell 42 ''1000'' st_web =
     (NewSsh ''ssh ubuntu@localhost -p 22701'' ''Failed to generate tmate: tmate display failed: '', s')"
    by (simp add: s'_def prod_eq_iff)
  have only: "\<forall>k w. (k, w) \<in> set (vps (data st_web)) \<and> k \<noteq> ''1000'' \<longrightarrow> local_ssh_port w \<noteq> Some 22700"
    by (simp add: st_web_def reg_web_def)
  note inst = renewssh_new_port [OF h0 h1 h2]
  from inst obtain v' p' where t:
    "find_free_ssh_port (data st_web) = Inr p'" "get_vps s' ''1000'' = Some v'"
    "local_ssh_port v' = Some p'"
    "\<forall>p. local_ssh_port vm_web = Some p \<and>
          (\<forall>k w. (k, w) \<in> set (vps (data st_web)) \<and> k \<noteq> ''1000'' \<longrightarrow> local_ssh_port w \<noteq> Some p) \<longrightarrow>
          p \<notin> used_ports (data s') \<and>
          (22700 \<le> p \<and> p \<le> 22999 \<longrightarrow> (\<exists>q. find_free_ssh_port (data s') = Inr q \<and> q \<le> p))"
    by blast
  from t(1) fp have "p' = 22701" by simp
  with t(2,3) have a: "map_option local_ssh_port (get_vps s' ''1000'') = Some (Some 22701)" by simp
  have pre: "local_ssh_port vm_web = Some 22700 \<and>
          (\<forall>k w. (k, w) \<in> set (vps (data st_web)) \<and> k \<noteq> ''1000'' \<longrightarrow> local_ssh_port w \<noteq> Some 22700)"
    using pv only by (rule conjI)
  from t(4) [rule_format, OF pre] have b: "22700 \<notin> used_ports (data s')"
    and b2: "22700 \<le> (22700::int) \<and> (22700::int) \<le> 22999 \<longrightarrow>
         (\<exists>q. find_free_ssh_port (data s') = Inr q \<and> q \<le> 22700)"
    by (rule conjunct1, rule conjunct2)
  from b2 have "\<exists>q. find_free_ssh_port (data s') = Inr q \<and> q \<le> 22700" by simp
  then obtain q where q: "find_free_ssh_port (data s') = Inr q" "q \<le> 22700" by blast
  from find_free_not_used [OF q(1)] q(2) have "q = 22700" by simp
  with q have c: "find_free_ssh_port (data s') = Inr 22700" by simp
  from h1 pv f a b c show ?thesis unfolding s'_def by blast
qed

section \<open>Reinstalling\<close>





section \<open>The admin list in every state of a run\<close>

lemma keeps_admins_same:
  "data s' = data s \<Longrightarrow> data_file s' = data_file s \<Longrightarrow> keeps_admins s s'"
  by (simp add: keeps_admins_def)

lemma keeps_admins_save:
  "admins (data s1) = admins (data s) \<Longrightarrow> keeps_admins s (save_data s1)"
  by (simp add: keeps_admins_def save_data_eq)

lemma put_vps_admins: "admins (data (put_vps k v s)) = admins (data s)"
  by (simp add: put_vps_def)

lemma del_vps_admins: "admins (data (del_vps k s)) = admins (data s)"
  by (simp add: del_vps_def)

lemma store_back_admins: "admins (data (store_back k v s)) = admins (data s)"
  by (cases k) (simp_all add: store_back_def put_vps_def)

lemma fold_remove_frame:
  "data (fold remove_if_exists ps s) = data s \<and> data_file (fold remove_if_exists ps s) = data_file s"
  by (induction ps arbitrary: s) (simp_all add: remove_if_exists_frame)

lemma createvps_keeps:
  assumes "createvps sh rnd now caller base ram cpus disk s = Some (r, s')"
  shows "keeps_admins s s'"
proof -
  from assms obtain vps_id k where g: "gen_vps_id rnd (draws s) (data s) = Some (vps_id, k)"
    by (auto simp: createvps_def split: option.splits)
  define s0 where "s0 = s\<lparr>draws := k\<rparr>"
  have d0: "data s0 = data s" "data_file s0 = data_file s" by (simp_all add: s0_def)
  show ?thesis
  proof (cases "find_free_ssh_port (data s)")
    case (Inl e)
    with assms g have "s' = s0" by (simp add: createvps_def Let_def s0_def)
    with d0 show ?thesis by (simp add: keeps_admins_same)
  next
    case (Inr p)
    obtain ok msg s1 where c: "create_vm_process sh (base @ ''-'' @ vps_id) ram cpus disk p s0 = ((ok, msg), s1)"
      by (metis surj_pair)
    from create_vm_process_frame [OF c] d0 have f1: "data s1 = data s" "data_file s1 = data_file s"
      by simp_all
    show ?thesis
    proof (cases ok)
      case False
      with assms g Inr c have "s' = s1" by (simp add: createvps_def Let_def s0_def)
      with f1 show ?thesis by (simp add: keeps_admins_same)
    next
      case True
      obtain tok t s2 where t: "generate_tmate sh (base @ ''-'' @ vps_id) s1 = ((tok, t), s2)"
        by (metis surj_pair)
      from generate_tmate_frame [OF t] f1 have f2: "data s2 = data s" by simp
      from assms g Inr c True t have "\<exists>v. s' = save_data (put_vps vps_id v s2)"
        by (auto simp: createvps_def Let_def s0_def)
      then obtain v where "s' = save_data (put_vps vps_id v s2)" by blast
      then show ?thesis using f2 by (simp add: keeps_admins_save put_vps_admins)
    qed
  qed
qed

lemma manage_keeps: "manage caller vps_id s = (r, s') \<Longrightarrow> keeps_admins s s'"
  by (auto simp: manage_def keeps_admins_def split: option.splits if_splits)

lemma start_cb_keeps:
  assumes "start_cb sh k v s = (r, v', s')"
  shows "keeps_admins s s'"
proof -
  obtain out err rc s1 where p: "run_shell sh (pgrep_cmd (name v)) 120 s = ((out, err, rc), s1)"
    by (metis surj_pair)
  from run_shell_frame [OF p] have f1: "data s1 = data s" "data_file s1 = data_file s" by simp_all
  show ?thesis
  proof (cases "out \<noteq> []")
    case True
    with assms p have "s' = save_data (store_back k (v\<lparr>status := ''Running''\<rparr>) s1)"
      by (auto simp: start_cb_def Let_def)
    then show ?thesis using f1 by (simp add: keeps_admins_save store_back_admins)
  next
    case False
    show ?thesis
    proof (cases "local_ssh_port v")
      case None
      with assms p False have "s' = s1" by (simp add: start_cb_def Let_def)
      with f1 show ?thesis by (simp add: keeps_admins_same)
    next
      case (Some port)
      obtain ok msg s2 where c: "create_vm_process sh (name v) (ram_mb v) (cpu v) (disk_gb v) port s1 = ((ok, msg), s2)"
        by (metis surj_pair)
      from create_vm_process_frame [OF c] f1 have f2: "data s2 = data s" "data_file s2 = data_file s"
        by simp_all
      show ?thesis
      proof (cases ok)
        case False
        with assms p \<open>\<not> out \<noteq> []\<close> Some c have "s' = s2" by (simp add: start_cb_def Let_def)
        with f2 show ?thesis by (simp add: keeps_admins_same)
      next
        case True
        with assms p \<open>\<not> out \<noteq> []\<close> Some c
        have "s' = save_data (store_back k (v\<lparr>status := ''Running''\<rparr>) s2)"
          by (auto simp: start_cb_def Let_def)
        then show ?thesis using f2 by (simp add: keeps_admins_save store_back_admins)
      qed
    qed
  qed
qed

lemma stop_cb_keeps:
  assumes "stop_cb sh k v s = (r, v', s')"
  shows "keeps_admins s s'"
proof -
  obtain res s1 where p: "run_shell sh (pkill_cmd (name v)) 120 s = (res, s1)"
    by (metis surj_pair)
  from run_shell_frame [OF p] have f1: "data s1 = data s" by simp
  from assms p have "s' = save_data (store_back k (v\<lparr>status := ''Stopped''\<rparr>) s1)"
    by (auto simp: stop_cb_def Let_def split: prod.splits)
  then show ?thesis using f1 by (simp add: keeps_admins_save store_back_admins)
qed

lemma keeps_admins_trans:
  "keeps_admins s s1 \<Longrightarrow> keeps_admins s1 s2 \<Longrightarrow> keeps_admins s s2"
  by (auto simp: keeps_admins_def split: option.splits file_content.splits)

lemma restart_cb_keeps:
  assumes "restart_cb sh k v s = (rs, v', s')"
  shows "keeps_admins s s'"
proof -
  obtain r1 v1 s1 where a: "stop_cb sh k v s = (r1, v1, s1)" by (metis prod_cases3)
  obtain r2 v2 s2 where b: "start_cb sh k v1 s1 = (r2, v2, s2)" by (metis prod_cases3)
  from assms a b have "s' = s2" by (simp add: restart_cb_def)
  with stop_cb_keeps [OF a] start_cb_keeps [OF b] show ?thesis
    by (auto intro: keeps_admins_trans)
qed


lemma deletevps_keeps:
  assumes "deletevps sh caller vps_id s = (r, s')"
  shows "keeps_admins s s'"
proof (cases "get_vps s vps_id")
  case None
  with assms show ?thesis by (simp add: deletevps_def keeps_admins_def)
next
  case (Some v)
  show ?thesis
  proof (cases "user v \<noteq> str caller \<and> \<not> is_admin (data s) caller")
    case True
    with assms Some show ?thesis by (simp add: deletevps_def keeps_admins_def)
  next
    case False
    obtain res s1 where p: "run_shell sh (pkill_cmd (name v)) 10 s = (res, s1)"
      by (metis surj_pair)
    from run_shell_frame [OF p] have f1: "data s1 = data s" by simp
    define s3 where "s3 = remove_if_exists (tmate_sock (name v))
           (fold remove_if_exists [qcow (vm_paths (name v)), log (vm_paths (name v)),
              tmate_file (vm_paths (name v)), script (vm_paths (name v))] s1)"
    have d3: "data s3 = data s1" by (simp add: s3_def remove_if_exists_frame)
    from assms Some False p have s': "s' = save_data (del_vps vps_id s3)"
      by (auto simp: deletevps_def Let_def s3_def)
    note d3 s'
    then show ?thesis using f1 by (simp add: keeps_admins_save del_vps_admins)
  qed
qed

lemma reinstallvps_keeps:
  assumes "reinstallvps sh caller vps_id s = (r, s')"
  shows "keeps_admins s s'"
proof (cases "get_vps s vps_id")
  case None
  with assms show ?thesis by (simp add: reinstallvps_def keeps_admins_def)
next
  case (Some v)
  show ?thesis
  proof (cases "user v \<noteq> str caller \<and> \<not> is_admin (data s) caller")
    case True
    with assms Some show ?thesis by (simp add: reinstallvps_def keeps_admins_def)
  next
    case False
    obtain res s1 where p: "run_shell sh (pkill_cmd (name v)) 10 s = (res, s1)"
      by (metis surj_pair)
    define s2 where "s2 = remove_if_exists (qcow (vm_paths (name v))) s1"
    from run_shell_frame [OF p] have f2: "data s2 = data s" "data_file s2 = data_file s"
      by (simp_all add: s2_def remove_if_exists_frame)
    show ?thesis
    proof (cases "port_or_free v (data s2)")
      case (Inl e)
      with assms Some False p have "s' = s2" by (simp add: reinstallvps_def Let_def s2_def)
      with f2 show ?thesis by (simp add: keeps_admins_same)
    next
      case (Inr port)
      obtain ok msg s3 where c:
        "create_vm_process sh (name v) (ram_mb v) (cpu v) (disk_gb v) port s2 = ((ok, msg), s3)"
        by (metis surj_pair)
      from create_vm_process_frame [OF c] f2 have f3: "data s3 = data s" "data_file s3 = data_file s"
        by simp_all
      show ?thesis
      proof (cases ok)
        case False
        with assms Some \<open>\<not> (user v \<noteq> str caller \<and> \<not> is_admin (data s) caller)\<close> p Inr c
        have "s' = s3" by (simp add: reinstallvps_def Let_def s2_def)
        with f3 show ?thesis by (simp add: keeps_admins_same)
      next
        case True
        with assms Some \<open>\<not> (user v \<noteq> str caller \<and> \<not> is_admin (data s) caller)\<close> p Inr c
        have "\<exists>v1. s' = save_data (put_vps vps_id v1 s3)"
          by (auto simp: reinstallvps_def Let_def s2_def)
        then obtain v1 where "s' = save_data (put_vps vps_id v1 s3)" by blast
        then show ?thesis using f3 by (simp add: keeps_admins_save put_vps_admins)
      qed
    qed
  qed
qed

lemma renewssh_keeps:
  assumes "renewssh sh caller vps_id s = (r, s')"
  shows "keeps_admins s s'"
proof (cases "get_vps s vps_id")
  case None
  with assms show ?thesis by (simp add: renewssh_def keeps_admins_def)
next
  case (Some v)
  show ?thesis
  proof (cases "user v \<noteq> str caller \<and> \<not> is_admin (data s) caller")
    case True
    with assms Some show ?thesis by (simp add: renewssh_def keeps_admins_def)
  next
    case auth: False
    show ?thesis
    proof (cases "find_free_ssh_port (data s)")
      case (Inl e)
      with assms Some auth show ?thesis by (simp add: renewssh_def keeps_admins_def)
    next
      case (Inr port)
      obtain res s1 where p: "run_shell sh (pkill_cmd (name v)) 10 s = (res, s1)"
        by (metis surj_pair)
      from run_shell_frame [OF p] have f1: "data s1 = data s" "data_file s1 = data_file s"
        by simp_all
      obtain ok msg s2 where c:
        "create_vm_process sh (name v) (ram_mb v) (cpu v) (disk_gb v) port s1 = ((ok, msg), s2)"
        by (metis surj_pair)
      from create_vm_process_frame [OF c] f1 have f2: "data s2 = data s" "data_file s2 = data_file s"
        by simp_all
      show ?thesis
      proof (cases ok)
        case False
        with assms Some auth Inr p c have "s' = s2" by (simp add: renewssh_def Let_def)
        with f2 show ?thesis by (simp add: keeps_admins_same)
      next
        case True
        obtain tok t s3 where t: "generate_tmate sh (name v) s2 = ((tok, t), s3)"
          by (metis surj_pair)
        from generate_tmate_frame [OF t] f2 have f3: "data s3 = data s" by simp
        from assms Some auth Inr p c True t
        have "\<exists>v2. s' = save_data (put_vps vps_id v2 s3)"
          by (auto simp: renewssh_def Let_def)
        then obtain v2 where "s' = save_data (put_vps vps_id v2 s3)" by blast
        then show ?thesis using f3 by (simp add: keeps_admins_save put_vps_admins)
      qed
    qed
  qed
qed

lemma keeps_admins_inv:
  "keeps_admins s s' \<Longrightarrow> admins_inv P s \<Longrightarrow> admins_inv P s'"
  by (auto simp: keeps_admins_def admins_inv_def split: option.splits file_content.splits)

lemma boot_inv:
  assumes "P [OWNER_ID]" and "data_file s = None \<or> admins_inv P s" and "boot OWNER_ID s = Inr s'"
  shows "admins_inv P s'"
  using assms
  by (auto simp: boot_def load_data_def admins_inv_def split: option.splits file_content.splits)

lemma addadmin_inv:
  assumes "\<And>as u. P as \<Longrightarrow> u \<notin> set as \<Longrightarrow> P (as @ [u])"
    and "admins_inv P s" and "addadmin OWNER_ID caller uid s = (r, s')"
  shows "admins_inv P s'"
proof (cases "caller \<noteq> OWNER_ID \<or> uid \<in> set (admins (data s))")
  case True
  with assms(3) have "s' = s" by (auto simp: addadmin_def split: if_splits)
  with assms(2) show ?thesis by simp
next
  case False
  with assms(3) have "s' = save_data (s\<lparr>data := (data s)\<lparr>admins := admins (data s) @ [uid]\<rparr>\<rparr>)"
    by (auto simp: addadmin_def split: if_splits)
  moreover have "P (admins (data s) @ [uid])"
    using assms(1) assms(2) False by (simp add: admins_inv_def)
  ultimately show ?thesis by (simp add: admins_inv_def save_data_eq)
qed

lemma removeadmin_inv:
  assumes "\<And>as u. P as \<Longrightarrow> u \<noteq> OWNER_ID \<Longrightarrow> P (remove1 u as)"
    and "admins_inv P s" and "removeadmin OWNER_ID caller uid s = (r, s')"
  shows "admins_inv P s'"
proof (cases "caller \<noteq> OWNER_ID \<or> uid = OWNER_ID \<or> uid \<notin> set (admins (data s))")
  case True
  with assms(3) have "s' = s" by (auto simp: removeadmin_def split: if_splits)
  with assms(2) show ?thesis by simp
next
  case False
  with assms(3) have "s' = save_data (s\<lparr>data := (data s)\<lparr>admins := remove1 uid (admins (data s))\<rparr>\<rparr>)"
    by (auto simp: removeadmin_def split: if_splits)
  moreover have "P (remove1 uid (admins (data s)))"
    using assms(1) assms(2) False by (simp add: admins_inv_def)
  ultimately show ?thesis by (simp add: admins_inv_def save_data_eq)
qed

lemma reachable_admins_inv:
  assumes "reachable OWNER_ID s"
    and init: "P [OWNER_ID]"
    and app: "\<And>as u. P as \<Longrightarrow> u \<notin> set as \<Longrightarrow> P (as @ [u])"
    and rem: "\<And>as u. P as \<Longrightarrow> u \<noteq> OWNER_ID \<Longrightarrow> P (remove1 u as)"
  shows "admins_inv P s"
  using assms(1)
proof (induction rule: reachable.induct)
  case (first_boot s s')
  then show ?case using boot_inv [of P OWNER_ID, OF init] by blast
next
  case (reboot s s')
  then show ?case using boot_inv [of P OWNER_ID, OF init] by blast
next
  case (host_change s h)
  then show ?case by (simp add: admins_inv_def)
next
  case (create s sh rnd now caller base ram cpus disk r s')
  then show ?case using createvps_keeps keeps_admins_inv by blast
next
  case (manage s caller vps_id r s')
  then show ?case using manage_keeps keeps_admins_inv by blast
next
  case (start s k v sh r v' s')
  then show ?case using start_cb_keeps keeps_admins_inv by blast
next
  case (stop s k v sh r v' s')
  then show ?case using stop_cb_keeps keeps_admins_inv by blast
next
  case (restart s k v sh rs v' s')
  then show ?case using restart_cb_keeps keeps_admins_inv by blast
next
  case (delete s sh caller vps_id r s')
  then show ?case using deletevps_keeps keeps_admins_inv by blast
next
  case (reinstall s sh caller vps_id r s')
  then show ?case using reinstallvps_keeps keeps_admins_inv by blast
next
  case (renew s sh caller vps_id r s')
  then show ?case using renewssh_keeps keeps_admins_inv by blast
next
  case (add_admin s caller uid r s')
  then show ?case using addadmin_inv [of P, OF app] by blast
next
  case (remove_admin s caller uid r s')
  then show ?case using removeadmin_inv [of P OWNER_ID, OF rem] by blast
qed


lemma reachable_example:
  "reachable 1 st_empty \<and> reachable 1 (snd (addadmin 1 1 5 st_empty))"
proof -
  have b: "boot 1 st_empty = Inr st_empty"
    by (simp add: boot_def load_data_def st_empty_def reg_empty_def)
  have "data_file st_empty = None" by (simp add: st_empty_def)
  then have r: "reachable 1 st_empty" using b by (rule reachable.first_boot)
  have "addadmin 1 1 5 st_empty = (fst (addadmin 1 1 5 st_empty), snd (addadmin 1 1 5 st_empty))"
    by simp
  with r have "reachable 1 (snd (addadmin 1 1 5 st_empty))" by (rule reachable.add_admin)
  with r show ?thesis by simp
qed

lemma addadmin_example:
  "addadmin 1 1 5 st_empty =
     (AdminAdded 5,
      \<lparr>data = \<lparr>vps = [], admins = [1, 5]\<rparr>,
       data_file = Some (Document \<lparr>vps = [], admins = [1, 5]\<rparr>),
       os = host_empty, events = [], draws = 0\<rparr>)"
  by (simp add: addadmin_def st_empty_def reg_empty_def save_data_eq)

text \<open>
  Claim C9. In every state that a run of the bot reaches, the owner is in the
  admin list. No operation removes the owner: \<^verbatim>\<open>removeadmin\<close> on the owner is
  rejected in any state, with "Cannot remove the owner" when the caller is the
  owner and "Only the owner can remove admins" otherwise, and the state it
  returns is the one it was given.
\<close>

theorem owner_always_admin:
  "(reachable OWNER_ID s \<longrightarrow> OWNER_ID \<in> set (admins (data s))) \<and>
   removeadmin OWNER_ID caller OWNER_ID t =
     (if caller = OWNER_ID then CannotRemoveOwner else OnlyOwnerCanRemove, t)"
proof
  show "reachable OWNER_ID s \<longrightarrow> OWNER_ID \<in> set (admins (data s))"
  proof
    assume "reachable OWNER_ID s"
    then have "admins_inv (\<lambda>as. OWNER_ID \<in> set as) s"
      by (rule reachable_admins_inv) auto
    then show "OWNER_ID \<in> set (admins (data s))" by (simp add: admins_inv_def)
  qed
  show "removeadmin OWNER_ID caller OWNER_ID t =
     (if caller = OWNER_ID then CannotRemoveOwner else OnlyOwnerCanRemove, t)"
    by (simp add: removeadmin_def)
qed

text \<open>
  After the owner 1 made 5 an admin, neither 1 nor 5 can remove 1.
\<close>

theorem owner_always_admin_witness:
  "admins (data (snd (addadmin 1 1 5 st_empty))) = [1, 5] \<and>
   1 \<in> set (admins (data (snd (addadmin 1 1 5 st_empty)))) \<and>
   removeadmin 1 1 1 (snd (addadmin 1 1 5 st_empty)) =
     (CannotRemoveOwner, snd (addadmin 1 1 5 st_empty)) \<and>
   removeadmin 1 5 1 (snd (addadmin 1 1 5 st_empty)) =
     (OnlyOwnerCanRemove, snd (addadmin 1 1 5 st_empty))"
proof -
  define s2 where "s2 = snd (addadmin 1 1 5 st_empty)"
  have r: "reachable 1 s2" using reachable_example by (simp add: s2_def)
  have a: "admins (data s2) = [1, 5]" by (simp add: s2_def addadmin_example)
  from owner_always_admin [of 1 s2 1 s2] r have m: "1 \<in> set (admins (data s2))"
    and x: "removeadmin 1 1 1 s2 = (CannotRemoveOwner, s2)" by simp_all
  from owner_always_admin [of 1 s2 5 s2] have y: "removeadmin 1 5 1 s2 = (OnlyOwnerCanRemove, s2)"
    by simp
  from a m x y show ?thesis unfolding s2_def by blast
qed

text \<open>
  Claim C10. In every state that a run of the bot reaches, the admin list has no
  duplicates: \<^verbatim>\<open>addadmin\<close> on a user already in the list is rejected and changes
  nothing, and no other operation appends to the list. So after a \<^verbatim>\<open>removeadmin\<close>
  that succeeds for a user, who was in the list, the user is not in the list
  any more: the list is the previous one without the user's one entry.
\<close>

theorem admins_never_duplicated:
  assumes "reachable OWNER_ID s"
  shows "distinct (admins (data s)) \<and>
         (uid \<in> set (admins (data s)) \<longrightarrow>
            snd (addadmin OWNER_ID caller uid s) = s \<and>
            fst (addadmin OWNER_ID caller uid s) =
              (if caller = OWNER_ID then AlreadyAdmin else OnlyOwnerCanAdd)) \<and>
         (removeadmin OWNER_ID caller uid s = (AdminRemoved uid, s') \<longrightarrow>
            uid \<in> set (admins (data s)) \<and> uid \<notin> set (admins (data s')) \<and>
            admins (data s') = remove1 uid (admins (data s)))"
proof -
  have "admins_inv distinct s"
    using assms by (rule reachable_admins_inv) (auto simp: distinct_remove1)
  then have d: "distinct (admins (data s))" by (simp add: admins_inv_def)
  have a: "uid \<in> set (admins (data s)) \<longrightarrow>
            snd (addadmin OWNER_ID caller uid s) = s \<and>
            fst (addadmin OWNER_ID caller uid s) =
              (if caller = OWNER_ID then AlreadyAdmin else OnlyOwnerCanAdd)"
    by (simp add: addadmin_def)
  have r: "removeadmin OWNER_ID caller uid s = (AdminRemoved uid, s') \<longrightarrow>
            uid \<in> set (admins (data s)) \<and> uid \<notin> set (admins (data s')) \<and>
            admins (data s') = remove1 uid (admins (data s))"
    using d by (auto simp: removeadmin_def save_data_eq split: if_splits)
  from d a r show ?thesis by blast
qed

text \<open>
  After the owner 1 made 5 an admin, adding 5 again is rejected, and removing 5
  leaves the list with 1 alone.
\<close>

theorem admins_never_duplicated_witness:
  "admins (data (snd (addadmin 1 1 5 st_empty))) = [1, 5] \<and>
   addadmin 1 1 5 (snd (addadmin 1 1 5 st_empty)) = (AlreadyAdmin, snd (addadmin 1 1 5 st_empty)) \<and>
   fst (removeadmin 1 1 5 (snd (addadmin 1 1 5 st_empty))) = AdminRemoved 5 \<and>
   admins (data (snd (removeadmin 1 1 5 (snd (addadmin 1 1 5 st_empty))))) = [1] \<and>
   5 \<notin> set (admins (data (snd (removeadmin 1 1 5 (snd (addadmin 1 1 5 st_empty))))))"
proof -
  define s2 where "s2 = snd (addadmin 1 1 5 st_empty)"
  define s3 where "s3 = snd (removeadmin 1 1 5 s2)"
  have r: "reachable 1 s2" using reachable_example by (simp add: s2_def)
  have a: "admins (data s2) = [1, 5]" by (simp add: s2_def addadmin_example)
  have rm: "removeadmin 1 1 5 s2 = (AdminRemoved 5, s3)"
    unfolding s3_def by (simp add: removeadmin_def a)
  note t = admins_never_duplicated [OF r, of 5 1 s3]
  from t a have ad: "addadmin 1 1 5 s2 = (AlreadyAdmin, s2)"
    by (simp add: prod_eq_iff)
  from t rm have gone: "5 \<notin> set (admins (data s3))" "admins (data s3) = remove1 5 (admins (data s2))"
    by simp_all
  from gone a have l: "admins (data s3) = [1]" by simp
  from rm have f: "fst (removeadmin 1 1 5 s2) = AdminRemoved 5" by simp
  from gone(1) l have g: "5 \<notin> set (admins (data s3))" by simp
  show ?thesis
    using a ad f l g unfolding s3_def s2_def by blast
qed

end
